theory Spec2Isabelle
  imports Main "HOL-Library.Sublist" "HOL-Library.Multiset"
begin

section \<open>Data model\<close>

text \<open>
  JavaScript strings are sequences of UTF-16 code units.  The scanned prompt text and the
  matched substrings are modelled as lists of code units (natural numbers); the short ASCII
  metadata strings of a rule (id, name, category, severity, owasp) are written as HOL strings.
  The two prose fields \<open>description\<close> and \<open>recommendation\<close> of a rule are copied
  unchanged into its finding and are read by the reporter only; they are left out of the
  records below.
\<close>

type_synonym jsstring = "nat list"

definition js :: "string \<Rightarrow> jsstring" where
  "js s = map of_char s"

record meta =
  id' :: string
  name :: string
  category :: string
  severity :: string
  owasp :: string

text \<open>One entry of a finding's \<open>matches\<close> array: \<open>{ match, index, line }\<close>.\<close>

record matchDetail =
  match :: jsstring
  index :: nat
  line :: nat

text \<open>The object pushed onto \<open>findings\<close> by \<open>scanPrompt\<close>.\<close>

record finding = meta +
  matches :: "matchDetail list"

section \<open>Regular expressions of the host language\<close>

text \<open>
  The rule catalog is written with JavaScript regular-expression literals.  Only these
  constructs occur in it: literal characters, character classes (with ranges and the escapes
  \<open>\s\<close>, \<open>\d\<close>, \<open>\w\<close>, possibly negated), the dot, the word-boundary assertion \<open>\b\<close>,
  non-capturing groups, alternation and greedy quantifiers.  No pattern captures, refers back
  or looks around, so a match is determined by its start and its end.
\<close>

datatype citem = CUnit nat | CRange nat nat | CSpace | CDigit | CWord

datatype regex =
    Lit nat
  | Cls bool "citem list"
  | Dot
  | WordB
  | Eps
  | Seq regex regex
  | Alt regex regex
  | Rep nat "nat option" regex

text \<open>\<open>\s\<close>: the WhiteSpace and LineTerminator code points of ECMAScript.\<close>

definition isWhiteSpace :: "nat \<Rightarrow> bool" where
  "isWhiteSpace c \<longleftrightarrow>
     (9 \<le> c \<and> c \<le> 13) \<or> c = 32 \<or> c = 160 \<or> c = 5760 \<or> (8192 \<le> c \<and> c \<le> 8202)
     \<or> c = 8232 \<or> c = 8233 \<or> c = 8239 \<or> c = 8287 \<or> c = 12288 \<or> c = 65279"

definition isLineTerminator :: "nat \<Rightarrow> bool" where
  "isLineTerminator c \<longleftrightarrow> c = 10 \<or> c = 13 \<or> c = 8232 \<or> c = 8233"

definition isWordChar :: "nat \<Rightarrow> bool" where
  "isWordChar c \<longleftrightarrow>
     (48 \<le> c \<and> c \<le> 57) \<or> (65 \<le> c \<and> c \<le> 90) \<or> c = 95 \<or> (97 \<le> c \<and> c \<le> 122)"

text \<open>
  Canonicalize of a pattern without the \<open>u\<close> flag: under \<open>i\<close> a code unit is replaced by
  its upper-case form.  A code unit outside ASCII never canonicalizes into ASCII, and the
  catalog's patterns name code units outside ASCII only through \<open>\s\<close>, whose members
  have no case variants; the mapping is therefore written for the ASCII letters only.
\<close>

definition canonicalize :: "bool \<Rightarrow> nat \<Rightarrow> nat" where
  "canonicalize ic c = (if ic \<and> 97 \<le> c \<and> c \<le> 122 then c - 32 else c)"

fun itemMatches :: "bool \<Rightarrow> nat \<Rightarrow> citem \<Rightarrow> bool" where
  "itemMatches ic c (CUnit a) = (canonicalize ic a = canonicalize ic c)"
| "itemMatches ic c (CRange lo hi) =
     list_ex (\<lambda>a. canonicalize ic a = canonicalize ic c) [lo..<Suc hi]"
| "itemMatches ic c CSpace = isWhiteSpace c"
| "itemMatches ic c CDigit = (48 \<le> c \<and> c \<le> 57)"
| "itemMatches ic c CWord = isWordChar c"

definition isWordBoundary :: "jsstring \<Rightarrow> nat \<Rightarrow> bool" where
  "isWordBoundary t e \<longleftrightarrow>
     (0 < e \<and> e - 1 < length t \<and> isWordChar (t ! (e - 1)))
       \<noteq> (e < length t \<and> isWordChar (t ! e))"

text \<open>
  The backtracking matcher, as the list of the end positions it would try, in priority
  order; the head of the list is the end of the match that is reported.

  \<open>repeatMatcher m n mn mx x\<close> is RepeatMatcher for a greedy quantifier \<open>{mn,mx}\<close> whose
  atom has matcher \<open>m\<close>, on an input of length \<open>n\<close>, started at \<open>x\<close>: once the minimum is
  met, an iteration that consumes nothing is rejected.  The test \<open>y < x \<or> n < y\<close> never
  succeeds for an end position an atom delivers (see \<open>ends_bounds\<close> and
  \<open>repeatMatcher_ends\<close>); it is there for the termination proof only.
\<close>

function repeatMatcher ::
  "(nat \<Rightarrow> nat list) \<Rightarrow> nat \<Rightarrow> nat \<Rightarrow> nat option \<Rightarrow> nat \<Rightarrow> nat list" where
  "repeatMatcher m n mn mx x =
     (if mx = Some 0 then [x]
      else let z = concat (map (\<lambda>y. if mn = 0 \<and> y = x then []
                                      else if y < x \<or> n < y then []
                                      else repeatMatcher m n (mn - 1)
                                             (map_option (\<lambda>k. k - 1) mx) y)
                              (m x))
           in if mn \<noteq> 0 then z else z @ [x])"
  by pat_completeness auto
termination
  by (relation "measures [\<lambda>(m, n, mn, mx, x). mn, \<lambda>(m, n, mn, mx, x). n - x]") auto

declare repeatMatcher.simps [simp del]

primrec ends :: "regex \<Rightarrow> bool \<Rightarrow> jsstring \<Rightarrow> nat \<Rightarrow> nat list" where
  "ends (Lit a) ic t i =
     (if i < length t \<and> canonicalize ic (t ! i) = canonicalize ic a then [Suc i] else [])"
| "ends (Cls neg items) ic t i =
     (if i < length t \<and> (list_ex (itemMatches ic (t ! i)) items \<noteq> neg) then [Suc i] else [])"
| "ends Dot ic t i = (if i < length t \<and> \<not> isLineTerminator (t ! i) then [Suc i] else [])"
| "ends WordB ic t i = (if isWordBoundary t i then [i] else [])"
| "ends Eps ic t i = [i]"
| "ends (Seq a b) ic t i = concat (map (ends b ic t) (ends a ic t i))"
| "ends (Alt a b) ic t i = ends a ic t i @ ends b ic t i"
| "ends (Rep mn mx r) ic t i = repeatMatcher (ends r ic t) (length t) mn mx i"

text \<open>
  RegExpBuiltinExec: the search for the first start position, from \<open>lastIndex\<close> on, at which
  the pattern matches; the result is the start and the end of the match.
\<close>

function searchFrom :: "regex \<Rightarrow> bool \<Rightarrow> jsstring \<Rightarrow> nat \<Rightarrow> (nat \<times> nat) option" where
  "searchFrom r ic t li =
     (if length t < li then None
      else (case ends r ic t li of
              [] \<Rightarrow> searchFrom r ic t (li + 1)
            | e # _ \<Rightarrow> Some (li, e)))"
  by pat_completeness auto
termination
  by (relation "measure (\<lambda>(r, ic, t, li). length t + 1 - li)") auto

declare searchFrom.simps [simp del]

text \<open>\<open>RegExp.prototype.test\<close> of a pattern without the \<open>g\<close> flag: the search starts at 0.\<close>

definition regexTest :: "regex \<Rightarrow> bool \<Rightarrow> jsstring \<Rightarrow> bool" where
  "regexTest r ic t \<longleftrightarrow> searchFrom r ic t 0 \<noteq> None"

text \<open>
  The iteration behind \<open>[...text.matchAll(pattern)]\<close> for a pattern with the \<open>g\<close> flag:
  each match is reported with its text \<open>m[0]\<close> and its start \<open>m.index\<close>, and the search
  resumes at the end of the match, one further after an empty match.  The test
  \<open>nextIndex \<le> li \<or> length t < li\<close> never succeeds (see \<open>matchAllFrom_unfold\<close>); it is
  there for the termination proof only.
\<close>

definition slice :: "jsstring \<Rightarrow> nat \<Rightarrow> nat \<Rightarrow> jsstring" where
  "slice t i e = take (e - i) (drop i t)"

function matchAllFrom :: "regex \<Rightarrow> bool \<Rightarrow> jsstring \<Rightarrow> nat \<Rightarrow> (jsstring \<times> nat) list" where
  "matchAllFrom r ic t li =
     (case searchFrom r ic t li of
        None \<Rightarrow> []
      | Some (i, e) \<Rightarrow>
          (let nextIndex = (if e = i then e + 1 else e)
           in (slice t i e, i) #
              (if nextIndex \<le> li \<or> length t < li then []
               else matchAllFrom r ic t nextIndex)))"
  by pat_completeness auto
termination
  by (relation "measure (\<lambda>(r, ic, t, li). length t + 1 - li)") auto

declare matchAllFrom.simps [simp del]

text \<open>
  A pattern object of the catalog.  Every pattern of the catalog carries the \<open>g\<close> flag,
  which \<open>matchAll\<close> requires; \<open>ignoreCase\<close> is its \<open>i\<close> flag.  \<open>lastIndex\<close> is the one
  mutable property of the object.
\<close>

record regExp =
  source :: regex
  ignoreCase :: bool
  lastIndex :: nat

text \<open>
  \<open>text.matchAll(pattern)\<close> works on a clone of the pattern that starts at the pattern's
  current \<open>lastIndex\<close>; the pattern itself is not written to.
\<close>

definition matchAll :: "jsstring \<Rightarrow> regExp \<Rightarrow> (jsstring \<times> nat) list" where
  "matchAll text pattern = matchAllFrom (source pattern) (ignoreCase pattern) text (lastIndex pattern)"

section \<open>String operations of the host language\<close>

text \<open>\<open>s.substring(a, b)\<close>: both indices are clamped to the length and swapped if needed.\<close>

definition substring :: "jsstring \<Rightarrow> nat \<Rightarrow> nat \<Rightarrow> jsstring" where
  "substring s a b =
     (let a' = min a (length s); b' = min b (length s)
      in take (max a' b' - min a' b') (drop (min a' b') s))"

text \<open>\<open>s.split(sep)\<close> for a separator of one code unit; the empty string splits into \<open>[""]\<close>.\<close>

fun split :: "nat \<Rightarrow> jsstring \<Rightarrow> jsstring list" where
  "split sep [] = [[]]"
| "split sep (c # cs) =
     (if c = sep then [] # split sep cs
      else (case split sep cs of [] \<Rightarrow> [[c]] | p # ps \<Rightarrow> (c # p) # ps))"

text \<open>
  \<open>s.toLowerCase()\<close>, written for ASCII: it is applied to matches of the e-mail pattern
  only, whose character classes hold ASCII code units only.
\<close>

definition toLowerCase :: "jsstring \<Rightarrow> jsstring" where
  "toLowerCase s = map (\<lambda>c. if 65 \<le> c \<and> c \<le> 90 then c + 32 else c) s"

definition startsWith :: "jsstring \<Rightarrow> jsstring \<Rightarrow> bool" where
  "startsWith s p \<longleftrightarrow> take (length p) s = p"

section \<open>The scanner engine (scanPrompt)\<close>

text \<open>
  A rule of the catalog.  \<open>patterns\<close> and \<open>test\<close> are optional properties.  A \<open>test\<close>
  is a JavaScript function of the text; it returns a boolean or throws a value of type \<open>'e\<close>.
\<close>

record 'e rule = meta +
  patterns :: "regExp list option"
  test :: "(jsstring \<Rightarrow> 'e + bool) option"

text \<open>
  The object built for one match \<open>m\<close>:
  \<open>{ match: m[0].substring(0, 80), index: m.index,
      line: text.substring(0, m.index).split("\n").length }\<close>.
\<close>

definition matchDetailOf :: "jsstring \<Rightarrow> jsstring \<times> nat \<Rightarrow> matchDetail" where
  "matchDetailOf text m =
     \<lparr>match = substring (fst m) 0 80, index = snd m,
      line = length (split 10 (substring text 0 (snd m)))\<rparr>"

text \<open>The entry pushed when a rule's \<open>test\<close> succeeds.\<close>

definition structuralAnalysis :: matchDetail where
  "structuralAnalysis = \<lparr>match = js ''(structural analysis)'', index = 0, line = 0\<rparr>"

text \<open>
  The loop over \<open>rule.patterns\<close>.  It carries \<open>matched\<close> and \<open>matchDetails\<close> and returns
  them with the pattern objects as the loop leaves them: \<open>pattern.lastIndex = 0\<close> is a write
  to the catalog's own object.
\<close>

fun scanPatterns ::
  "regExp list \<Rightarrow> jsstring \<Rightarrow> bool \<times> matchDetail list
     \<Rightarrow> (bool \<times> matchDetail list) \<times> regExp list" where
  "scanPatterns [] text acc = (acc, [])"
| "scanPatterns (pattern # rest) text (matched, matchDetails) =
     (let pattern' = pattern\<lparr>lastIndex := 0\<rparr>;
          ms = matchAll text pattern';
          acc' = (if length ms > 0 then (True, matchDetails @ map (matchDetailOf text) ms)
                  else (matched, matchDetails));
          (res, rest') = scanPatterns rest text acc'
      in (res, pattern' # rest'))"

definition findingOf :: "'e rule \<Rightarrow> matchDetail list \<Rightarrow> finding" where
  "findingOf rule matchDetails =
     \<lparr>id' = id' rule, name = name rule, category = category rule, severity = severity rule,
      owasp = owasp rule, matches = matchDetails\<rparr>"

text \<open>
  The body of the loop over the rules.  The result is the thrown value, if the rule's
  \<open>test\<close> throws, and otherwise the finding pushed, if any; with it comes the rule as the
  body leaves it.
\<close>

definition scanRule :: "'e rule \<Rightarrow> jsstring \<Rightarrow> ('e + finding option) \<times> 'e rule" where
  "scanRule rule text =
     (let (acc, rule') =
            (case patterns rule of
               None \<Rightarrow> ((False, []), rule)
             | Some ps \<Rightarrow>
                 (let (acc, ps') = scanPatterns ps text (False, [])
                  in (acc, rule\<lparr>patterns := Some ps'\<rparr>)));
          (matched, matchDetails) = acc;
          outcome =
            (case test rule of
               None \<Rightarrow> Inr (matched, matchDetails)
             | Some t \<Rightarrow>
                 if \<not> matched then
                   (case t text of
                      Inl e \<Rightarrow> Inl e
                    | Inr b \<Rightarrow>
                        if b then Inr (True, matchDetails @ [structuralAnalysis])
                        else Inr (matched, matchDetails))
                 else Inr (matched, matchDetails))
      in (case outcome of
            Inl e \<Rightarrow> (Inl e, rule')
          | Inr (matched', matchDetails') \<Rightarrow>
              (Inr (if matched' then Some (findingOf rule matchDetails') else None), rule')))"

text \<open>
  The loop over the catalog, with the array \<open>findings\<close> as accumulator.  A thrown value
  ends the loop: nothing catches it, the findings collected so far are lost and the rules
  not yet visited are untouched.
\<close>

fun scanLoop ::
  "'e rule list \<Rightarrow> jsstring \<Rightarrow> finding list \<Rightarrow> ('e + finding list) \<times> 'e rule list" where
  "scanLoop [] text findings = (Inr findings, [])"
| "scanLoop (rule # rest) text findings =
     (case scanRule rule text of
        (Inl e, rule') \<Rightarrow> (Inl e, rule' # rest)
      | (Inr None, rule') \<Rightarrow>
          (let (res, rest') = scanLoop rest text findings in (res, rule' # rest'))
      | (Inr (Some f), rule') \<Rightarrow>
          (let (res, rest') = scanLoop rest text (findings @ [f]) in (res, rule' # rest')))"

text \<open>
  \<open>scanPrompt(text)\<close>, run on the module's catalog in its current state: the result, or
  the thrown value, and the catalog after the call.
\<close>

definition scanPrompt :: "jsstring \<Rightarrow> 'e rule list \<Rightarrow> ('e + finding list) \<times> 'e rule list" where
  "scanPrompt text catalog = scanLoop catalog text []"

section \<open>The rule catalog\<close>

subsection \<open>Notation for the pattern literals\<close>

fun lit :: "string \<Rightarrow> regex" where
  "lit [] = Eps"
| "lit [c] = Lit (of_char c)"
| "lit (c # cs) = Seq (Lit (of_char c)) (lit cs)"

fun seqs :: "regex list \<Rightarrow> regex" where
  "seqs [] = Eps"
| "seqs [r] = r"
| "seqs (r # rs) = Seq r (seqs rs)"

fun alts :: "regex list \<Rightarrow> regex" where
  "alts [] = Cls False []"
| "alts [r] = r"
| "alts (r # rs) = Alt r (alts rs)"

definition anyOf :: "string list \<Rightarrow> regex" where
  "anyOf ws = alts (map lit ws)"

definition optional :: "regex \<Rightarrow> regex" where
  "optional r = Rep 0 (Some 1) r"

definition zeroOrMore :: "regex \<Rightarrow> regex" where
  "zeroOrMore r = Rep 0 None r"

definition oneOrMore :: "regex \<Rightarrow> regex" where
  "oneOrMore r = Rep 1 None r"

definition nOrMore :: "nat \<Rightarrow> regex \<Rightarrow> regex" where
  "nOrMore n r = Rep n None r"

definition exactly :: "nat \<Rightarrow> regex \<Rightarrow> regex" where
  "exactly n r = Rep n (Some n) r"

definition chars :: "string \<Rightarrow> citem list" where
  "chars s = map (\<lambda>c. CUnit (of_char c)) s"

definition charRange :: "char \<Rightarrow> char \<Rightarrow> citem" where
  "charRange a b = CRange (of_char a) (of_char b)"

definition oneOf :: "citem list \<Rightarrow> regex" where
  "oneOf items = Cls False items"

text \<open>\<open>\s\<close>; \<open>\S\<close> and \<open>[^\s]\<close>; \<open>\d\<close>; the class body \<open>a-zA-Z0-9\<close>.\<close>

definition ws :: regex where
  "ws = Cls False [CSpace]"

definition nonWs :: regex where
  "nonWs = Cls True [CSpace]"

definition digit :: regex where
  "digit = Cls False [CDigit]"

definition alnum :: "citem list" where
  "alnum = [charRange CHR ''a'' CHR ''z'', charRange CHR ''A'' CHR ''Z'', charRange CHR ''0'' CHR ''9'']"

text \<open>A pattern literal with the flags \<open>g\<close> and \<open>gi\<close>.\<close>

definition flagsG :: "regex \<Rightarrow> regExp" where
  "flagsG r = \<lparr>source = r, ignoreCase = False, lastIndex = 0\<rparr>"

definition flagsGI :: "regex \<Rightarrow> regExp" where
  "flagsGI r = \<lparr>source = r, ignoreCase = True, lastIndex = 0\<rparr>"

subsection \<open>Sensitive Data Exposure\<close>

text \<open>
  SDE-001, patterns in order:
  \<^verbatim>\<open>/(?:api[_-]?key|api[_-]?token|access[_-]?token|secret[_-]?key|auth[_-]?token)\s*[:=]\s*\S+/gi\<close>,
  \<^verbatim>\<open>/\b(?:sk|pk|ak|rk)-[a-zA-Z0-9]{20,}\b/g\<close>,
  \<^verbatim>\<open>/\b(?:ghp|gho|ghu|ghs|ghr)_[a-zA-Z0-9]{36,}\b/g\<close>,
  \<^verbatim>\<open>/\bAIza[a-zA-Z0-9_-]{35}\b/g\<close>,
  \<^verbatim>\<open>/\bxox[bpsa]-[a-zA-Z0-9-]+/g\<close>,
  \<^verbatim>\<open>/\bBearer\s+[a-zA-Z0-9._-]{20,}\b/g\<close>.
\<close>

definition rule_SDE_001 :: "'e rule" where
  "rule_SDE_001 =
     \<lparr>id' = ''SDE-001'', name = ''API Key or Token in Prompt'',
      category = ''Sensitive Data Exposure'', severity = ''critical'', owasp = ''LLM06'',
      patterns = Some
        [flagsGI (seqs [alts [seqs [lit ''api'', optional (oneOf (chars ''_-'')), lit ''key''],
                              seqs [lit ''api'', optional (oneOf (chars ''_-'')), lit ''token''],
                              seqs [lit ''access'', optional (oneOf (chars ''_-'')), lit ''token''],
                              seqs [lit ''secret'', optional (oneOf (chars ''_-'')), lit ''key''],
                              seqs [lit ''auth'', optional (oneOf (chars ''_-'')), lit ''token'']],
                        zeroOrMore ws, oneOf (chars '':=''), zeroOrMore ws, oneOrMore nonWs]),
         flagsG (seqs [WordB, anyOf [''sk'', ''pk'', ''ak'', ''rk''], lit ''-'',
                       nOrMore 20 (oneOf alnum), WordB]),
         flagsG (seqs [WordB, anyOf [''ghp'', ''gho'', ''ghu'', ''ghs'', ''ghr''], lit ''_'',
                       nOrMore 36 (oneOf alnum), WordB]),
         flagsG (seqs [WordB, lit ''AIza'', exactly 35 (oneOf (alnum @ chars ''_-'')), WordB]),
         flagsG (seqs [WordB, lit ''xox'', oneOf (chars ''bpsa''), lit ''-'',
                       oneOrMore (oneOf (alnum @ chars ''-''))]),
         flagsG (seqs [WordB, lit ''Bearer'', oneOrMore ws,
                       nOrMore 20 (oneOf (alnum @ chars ''._-'')), WordB])],
      test = None\<rparr>"

text \<open>
  SDE-002:
  \<^verbatim>\<open>/(?:password|passwd|pwd)\s*[:=]\s*\S+/gi\<close>,
  \<^verbatim>\<open>/(?:username|user)\s*[:=]\s*\S+.*(?:password|passwd|pwd)\s*[:=]\s*\S+/gi\<close>.
\<close>

definition rule_SDE_002 :: "'e rule" where
  "rule_SDE_002 =
     \<lparr>id' = ''SDE-002'', name = ''Password or Credential in Prompt'',
      category = ''Sensitive Data Exposure'', severity = ''critical'', owasp = ''LLM06'',
      patterns = Some
        [flagsGI (seqs [anyOf [''password'', ''passwd'', ''pwd''],
                        zeroOrMore ws, oneOf (chars '':=''), zeroOrMore ws, oneOrMore nonWs]),
         flagsGI (seqs [anyOf [''username'', ''user''],
                        zeroOrMore ws, oneOf (chars '':=''), zeroOrMore ws, oneOrMore nonWs,
                        zeroOrMore Dot,
                        anyOf [''password'', ''passwd'', ''pwd''],
                        zeroOrMore ws, oneOf (chars '':=''), zeroOrMore ws, oneOrMore nonWs])],
      test = None\<rparr>"

text \<open>
  SDE-003:
  \<^verbatim>\<open>/\b\d{3}-\d{2}-\d{4}\b/g\<close>,
  \<^verbatim>\<open>/\b\d{4}[\s-]?\d{4}[\s-]?\d{4}[\s-]?\d{4}\b/g\<close>,
  \<^verbatim>\<open>/(?:internal|private|confidential|secret)\s+(?:email|phone|address|ssn|social)/gi\<close>;
  its test collects the matches of
  \<^verbatim>\<open>/\b[A-Za-z0-9._%+-]+@[A-Za-z0-9.-]+\.[A-Z|a-z]{2,}\b/g\<close>
  and drops those that start, in lower case, with a public-facing local part.
\<close>

definition emailPattern :: regex where
  "emailPattern =
     seqs [WordB,
           oneOrMore (oneOf ([charRange CHR ''A'' CHR ''Z'', charRange CHR ''a'' CHR ''z'',
                              charRange CHR ''0'' CHR ''9''] @ chars ''._%+-'')),
           lit ''@'',
           oneOrMore (oneOf ([charRange CHR ''A'' CHR ''Z'', charRange CHR ''a'' CHR ''z'',
                              charRange CHR ''0'' CHR ''9''] @ chars ''.-'')),
           lit ''.'',
           nOrMore 2 (oneOf ([charRange CHR ''A'' CHR ''Z''] @ chars ''|''
                             @ [charRange CHR ''a'' CHR ''z''])),
           WordB]"

definition test_SDE_003 :: "jsstring \<Rightarrow> 'e + bool" where
  "test_SDE_003 text =
     (let emails = matchAllFrom emailPattern False text 0;
          sensitiveEmails =
            filter (\<lambda>m. let email = toLowerCase (fst m)
                        in \<not> (startsWith email (js ''support@'') \<or>
                                startsWith email (js ''info@'') \<or>
                                startsWith email (js ''help@'') \<or>
                                startsWith email (js ''contact@'') \<or>
                                startsWith email (js ''sales@'') \<or>
                                startsWith email (js ''noreply@'') \<or>
                                startsWith email (js ''no-reply@'')))
                   emails
      in Inr (length sensitiveEmails > 0))"

definition rule_SDE_003 :: "'e rule" where
  "rule_SDE_003 =
     \<lparr>id' = ''SDE-003'', name = ''PII or Sensitive Personal Data'',
      category = ''Sensitive Data Exposure'', severity = ''critical'', owasp = ''LLM06'',
      patterns = Some
        [flagsG (seqs [WordB, exactly 3 digit, lit ''-'', exactly 2 digit, lit ''-'',
                       exactly 4 digit, WordB]),
         flagsG (seqs [WordB, exactly 4 digit, optional (oneOf (CSpace # chars ''-'')),
                       exactly 4 digit, optional (oneOf (CSpace # chars ''-'')),
                       exactly 4 digit, optional (oneOf (CSpace # chars ''-'')),
                       exactly 4 digit, WordB]),
         flagsGI (seqs [anyOf [''internal'', ''private'', ''confidential'', ''secret''],
                        oneOrMore ws,
                        anyOf [''email'', ''phone'', ''address'', ''ssn'', ''social'']])],
      test = Some test_SDE_003\<rparr>"

text \<open>
  SDE-004:
  \<^verbatim>\<open>/https?:\/\/(?:localhost|127\.0\.0\.1|10\.\d+\.\d+\.\d+|172\.(?:1[6-9]|2\d|3[01])\.\d+\.\d+|192\.168\.\d+\.\d+)[^\s]*/gi\<close>,
  \<^verbatim>\<open>/https?:\/\/[^\s]*(?:internal|admin|staging|dev|api-internal)[^\s]*/gi\<close>,
  \<^verbatim>\<open>/(?:endpoint|url|api)\s*[:=]\s*https?:\/\/[^\s]+/gi\<close>.
\<close>

definition rule_SDE_004 :: "'e rule" where
  "rule_SDE_004 =
     \<lparr>id' = ''SDE-004'', name = ''Internal URLs or Endpoints'',
      category = ''Sensitive Data Exposure'', severity = ''high'', owasp = ''LLM06'',
      patterns = Some
        [flagsGI (seqs [lit ''http'', optional (lit ''s''), lit ''://'',
                        alts [lit ''localhost'',
                              lit ''127.0.0.1'',
                              seqs [lit ''10.'', oneOrMore digit, lit ''.'', oneOrMore digit,
                                    lit ''.'', oneOrMore digit],
                              seqs [lit ''172.'',
                                    alts [seqs [lit ''1'', oneOf [charRange CHR ''6'' CHR ''9'']],
                                          seqs [lit ''2'', digit],
                                          seqs [lit ''3'', oneOf (chars ''01'')]],
                                    lit ''.'', oneOrMore digit, lit ''.'', oneOrMore digit],
                              seqs [lit ''192.168.'', oneOrMore digit, lit ''.'', oneOrMore digit]],
                        zeroOrMore nonWs]),
         flagsGI (seqs [lit ''http'', optional (lit ''s''), lit ''://'', zeroOrMore nonWs,
                        anyOf [''internal'', ''admin'', ''staging'', ''dev'', ''api-internal''],
                        zeroOrMore nonWs]),
         flagsGI (seqs [anyOf [''endpoint'', ''url'', ''api''],
                        zeroOrMore ws, oneOf (chars '':=''), zeroOrMore ws,
                        lit ''http'', optional (lit ''s''), lit ''://'', oneOrMore nonWs])],
      test = None\<rparr>"

text \<open>
  SDE-005:
  \<^verbatim>\<open>/(?:mongodb|postgres|mysql|redis|mssql):\/\/[^\s]+/gi\<close>,
  \<^verbatim>\<open>/(?:DATABASE_URL|DB_HOST|DB_PASSWORD|MONGO_URI|REDIS_URL)\s*[:=]\s*\S+/gi\<close>.
\<close>

definition rule_SDE_005 :: "'e rule" where
  "rule_SDE_005 =
     \<lparr>id' = ''SDE-005'', name = ''Database Connection String'',
      category = ''Sensitive Data Exposure'', severity = ''critical'', owasp = ''LLM06'',
      patterns = Some
        [flagsGI (seqs [anyOf [''mongodb'', ''postgres'', ''mysql'', ''redis'', ''mssql''],
                        lit ''://'', oneOrMore nonWs]),
         flagsGI (seqs [anyOf [''DATABASE_URL'', ''DB_HOST'', ''DB_PASSWORD'', ''MONGO_URI'',
                               ''REDIS_URL''],
                        zeroOrMore ws, oneOf (chars '':=''), zeroOrMore ws, oneOrMore nonWs])],
      test = None\<rparr>"

subsection \<open>Injection Defense\<close>

text \<open>
  INJ-001 has no patterns.  Its test holds five patterns with the flag \<open>i\<close> and fires when
  none of them is found:
  \<^verbatim>\<open>/(?:ignore|disregard|refuse|reject|do not follow)\s+(?:any\s+)?(?:user\s+)?(?:instructions?|requests?|attempts?|commands?)/i\<close>,
  \<^verbatim>\<open>/(?:never|do not|don't)\s+(?:reveal|share|disclose|show|output)\s+(?:your\s+)?(?:system\s+)?(?:prompt|instructions?|rules?)/i\<close>,
  \<^verbatim>\<open>/(?:jailbreak|injection|bypass|override|role.?play)/i\<close>,
  \<^verbatim>\<open>/(?:maintain|stay in|keep)\s+(?:your\s+)?(?:role|character|persona)/i\<close>,
  \<^verbatim>\<open>/(?:if|when)\s+(?:the\s+)?user\s+(?:tries?|attempts?|asks?)\s+to/i\<close>.
\<close>

definition defensePatterns :: "regex list" where
  "defensePatterns =
     [seqs [anyOf [''ignore'', ''disregard'', ''refuse'', ''reject'', ''do not follow''],
            oneOrMore ws,
            optional (seqs [lit ''any'', oneOrMore ws]),
            optional (seqs [lit ''user'', oneOrMore ws]),
            alts [seqs [lit ''instruction'', optional (lit ''s'')],
                  seqs [lit ''request'', optional (lit ''s'')],
                  seqs [lit ''attempt'', optional (lit ''s'')],
                  seqs [lit ''command'', optional (lit ''s'')]]],
      seqs [anyOf [''never'', ''do not'', ''don't''],
            oneOrMore ws,
            anyOf [''reveal'', ''share'', ''disclose'', ''show'', ''output''],
            oneOrMore ws,
            optional (seqs [lit ''your'', oneOrMore ws]),
            optional (seqs [lit ''system'', oneOrMore ws]),
            alts [lit ''prompt'',
                  seqs [lit ''instruction'', optional (lit ''s'')],
                  seqs [lit ''rule'', optional (lit ''s'')]]],
      alts [lit ''jailbreak'', lit ''injection'', lit ''bypass'', lit ''override'',
            seqs [lit ''role'', optional Dot, lit ''play'']],
      seqs [anyOf [''maintain'', ''stay in'', ''keep''],
            oneOrMore ws,
            optional (seqs [lit ''your'', oneOrMore ws]),
            anyOf [''role'', ''character'', ''persona'']],
      seqs [anyOf [''if'', ''when''],
            oneOrMore ws,
            optional (seqs [lit ''the'', oneOrMore ws]),
            lit ''user'',
            oneOrMore ws,
            alts [seqs [lit ''trie'', optional (lit ''s'')],
                  seqs [lit ''attempt'', optional (lit ''s'')],
                  seqs [lit ''ask'', optional (lit ''s'')]],
            oneOrMore ws,
            lit ''to'']]"

definition test_INJ_001 :: "jsstring \<Rightarrow> 'e + bool" where
  "test_INJ_001 text = Inr (\<not> list_ex (\<lambda>p. regexTest p True text) defensePatterns)"

definition rule_INJ_001 :: "'e rule" where
  "rule_INJ_001 =
     \<lparr>id' = ''INJ-001'', name = ''No Injection Defense Instructions'',
      category = ''Injection Defense'', severity = ''high'', owasp = ''LLM01'',
      patterns = None, test = Some test_INJ_001\<rparr>"

text \<open>
  INJ-002 has no patterns.  Its test:
  \<open>hasSecrets\<close> is
  \<^verbatim>\<open>/(?:confidential|secret|internal|private|do not share|never share|never reveal)/i\<close>,
  \<open>hasOnlyInstructionDefense\<close> is
  \<^verbatim>\<open>/(?:never|do not|don't)\s+(?:share|reveal|disclose|tell|show)/i\<close>,
  \<open>hasCodeLevelMention\<close> is
  \<^verbatim>\<open>/(?:output filter|input valid|classif|sanitiz|allowlist|blocklist|regex|pattern match)/i\<close>.
\<close>

definition test_INJ_002 :: "jsstring \<Rightarrow> 'e + bool" where
  "test_INJ_002 text =
     (let hasSecrets =
            regexTest (anyOf [''confidential'', ''secret'', ''internal'', ''private'',
                              ''do not share'', ''never share'', ''never reveal'']) True text;
          hasOnlyInstructionDefense =
            regexTest (seqs [anyOf [''never'', ''do not'', ''don't''], oneOrMore ws,
                             anyOf [''share'', ''reveal'', ''disclose'', ''tell'', ''show'']])
                      True text;
          hasCodeLevelMention =
            regexTest (anyOf [''output filter'', ''input valid'', ''classif'', ''sanitiz'',
                              ''allowlist'', ''blocklist'', ''regex'', ''pattern match'']) True text
      in Inr (hasSecrets \<and> hasOnlyInstructionDefense \<and> \<not> hasCodeLevelMention))"

definition rule_INJ_002 :: "'e rule" where
  "rule_INJ_002 =
     \<lparr>id' = ''INJ-002'', name = ''Instruction-Only Defense (No Enforcement)'',
      category = ''Injection Defense'', severity = ''medium'', owasp = ''LLM01'',
      patterns = None, test = Some test_INJ_002\<rparr>"

text \<open>
  INJ-003 has no patterns.  Its test: \<open>protectsPrompt\<close> is the disjunction of
  \<^verbatim>\<open>/(?:never|do not|don't)\s+(?:[\w,\s]+\s+)?(?:repeat|reveal|share|disclose|show|output|summarize)\s+(?:your\s+)?(?:system\s+)?(?:prompt|instructions?|rules?|configuration)/i\<close>
  and
  \<^verbatim>\<open>/(?:never|do not|don't)\s+(?:repeat|reveal|share|disclose|show|output|summarize)[\w\s,]+(?:system\s+)?(?:prompt|instructions?|rules?)/i\<close>;
  the result is \<open>!protectsPrompt && text.length > 100\<close>.
\<close>

definition test_INJ_003 :: "jsstring \<Rightarrow> 'e + bool" where
  "test_INJ_003 text =
     (let protectsPrompt =
            (regexTest
               (seqs [anyOf [''never'', ''do not'', ''don't''], oneOrMore ws,
                      optional (seqs [oneOrMore (oneOf ([CWord] @ chars '','' @ [CSpace])),
                                      oneOrMore ws]),
                      anyOf [''repeat'', ''reveal'', ''share'', ''disclose'', ''show'', ''output'',
                             ''summarize''],
                      oneOrMore ws,
                      optional (seqs [lit ''your'', oneOrMore ws]),
                      optional (seqs [lit ''system'', oneOrMore ws]),
                      alts [lit ''prompt'',
                            seqs [lit ''instruction'', optional (lit ''s'')],
                            seqs [lit ''rule'', optional (lit ''s'')],
                            lit ''configuration'']]) True text
             \<or>
             regexTest
               (seqs [anyOf [''never'', ''do not'', ''don't''], oneOrMore ws,
                      anyOf [''repeat'', ''reveal'', ''share'', ''disclose'', ''show'', ''output'',
                             ''summarize''],
                      oneOrMore (oneOf ([CWord, CSpace] @ chars '','')),
                      optional (seqs [lit ''system'', oneOrMore ws]),
                      alts [lit ''prompt'',
                            seqs [lit ''instruction'', optional (lit ''s'')],
                            seqs [lit ''rule'', optional (lit ''s'')]]]) True text)
      in Inr (\<not> protectsPrompt \<and> length text > 100))"

definition rule_INJ_003 :: "'e rule" where
  "rule_INJ_003 =
     \<lparr>id' = ''INJ-003'', name = ''System Prompt Leakage Risk'',
      category = ''Injection Defense'', severity = ''medium'', owasp = ''LLM01'',
      patterns = None, test = Some test_INJ_003\<rparr>"

subsection \<open>Excessive Agency\<close>

text \<open>
  AGN-001, patterns:
  \<^verbatim>\<open>/(?:you\s+(?:can|have|are able to)\s+(?:access|use|call|invoke|execute)\s+(?:any|all)\s+(?:tool|function|api|endpoint))/gi\<close>,
  \<^verbatim>\<open>/(?:full\s+access|admin\s+access|unrestricted\s+access)/gi\<close>;
  in its test, \<open>hasTools\<close> is
  \<^verbatim>\<open>/(?:tool|function|api|endpoint|action|plugin|capability)/i\<close>,
  \<open>hasAccess\<close> is \<^verbatim>\<open>/(?:you can|you have access|you are able)/i\<close>,
  \<open>hasRestrictions\<close> is
  \<^verbatim>\<open>/(?:only|limited to|restricted|do not|cannot|must not|require.*confirm|require.*approv)/i\<close>.
\<close>

definition test_AGN_001 :: "jsstring \<Rightarrow> 'e + bool" where
  "test_AGN_001 text =
     (let hasTools =
            regexTest (anyOf [''tool'', ''function'', ''api'', ''endpoint'', ''action'', ''plugin'',
                              ''capability'']) True text;
          hasAccess =
            regexTest (anyOf [''you can'', ''you have access'', ''you are able'']) True text;
          hasRestrictions =
            regexTest (alts [lit ''only'', lit ''limited to'', lit ''restricted'', lit ''do not'',
                             lit ''cannot'', lit ''must not'',
                             seqs [lit ''require'', zeroOrMore Dot, lit ''confirm''],
                             seqs [lit ''require'', zeroOrMore Dot, lit ''approv'']]) True text
      in Inr (hasTools \<and> hasAccess \<and> \<not> hasRestrictions))"

definition rule_AGN_001 :: "'e rule" where
  "rule_AGN_001 =
     \<lparr>id' = ''AGN-001'', name = ''Unrestricted Tool/Function Access'',
      category = ''Excessive Agency'', severity = ''high'', owasp = ''LLM08'',
      patterns = Some
        [flagsGI (seqs [lit ''you'', oneOrMore ws,
                        anyOf [''can'', ''have'', ''are able to''], oneOrMore ws,
                        anyOf [''access'', ''use'', ''call'', ''invoke'', ''execute''], oneOrMore ws,
                        anyOf [''any'', ''all''], oneOrMore ws,
                        anyOf [''tool'', ''function'', ''api'', ''endpoint'']]),
         flagsGI (alts [seqs [lit ''full'', oneOrMore ws, lit ''access''],
                        seqs [lit ''admin'', oneOrMore ws, lit ''access''],
                        seqs [lit ''unrestricted'', oneOrMore ws, lit ''access'']])],
      test = Some test_AGN_001\<rparr>"

text \<open>
  AGN-002 has no patterns.  Its test: \<open>destructivePattern\<close> is
  \<^verbatim>\<open>/(?:send\s+(?:email|message|notification)|delete\s+(?:file|record|data|user)|modify\s+(?:database|record)|make\s+(?:purchase|payment|transaction))/gi\<close>,
  \<open>hasConfirmation\<close> is
  \<^verbatim>\<open>/(?:confirm|verify|approval|ask.*before|check.*before|user.*confirm)/i\<close>,
  \<open>hasProhibition\<close> is
  \<^verbatim>\<open>/(?:may not|cannot|must not|do not|don't|never)\s+(?:send|delete|remove|modify|update|create|write|post|publish|purchase|pay|transfer|execute|make)/i\<close>.
\<close>

definition destructivePattern :: regex where
  "destructivePattern =
     alts [seqs [lit ''send'', oneOrMore ws, anyOf [''email'', ''message'', ''notification'']],
           seqs [lit ''delete'', oneOrMore ws, anyOf [''file'', ''record'', ''data'', ''user'']],
           seqs [lit ''modify'', oneOrMore ws, anyOf [''database'', ''record'']],
           seqs [lit ''make'', oneOrMore ws, anyOf [''purchase'', ''payment'', ''transaction'']]]"

definition test_AGN_002 :: "jsstring \<Rightarrow> 'e + bool" where
  "test_AGN_002 text =
     (let matches = matchAllFrom destructivePattern True text 0
      in if length matches = 0 then Inr False
         else
           (let hasConfirmation =
                  regexTest (alts [lit ''confirm'', lit ''verify'', lit ''approval'',
                                   seqs [lit ''ask'', zeroOrMore Dot, lit ''before''],
                                   seqs [lit ''check'', zeroOrMore Dot, lit ''before''],
                                   seqs [lit ''user'', zeroOrMore Dot, lit ''confirm'']]) True text;
                hasProhibition =
                  regexTest (seqs [anyOf [''may not'', ''cannot'', ''must not'', ''do not'',
                                          ''don't'', ''never''],
                                   oneOrMore ws,
                                   anyOf [''send'', ''delete'', ''remove'', ''modify'', ''update'',
                                          ''create'', ''write'', ''post'', ''publish'', ''purchase'',
                                          ''pay'', ''transfer'', ''execute'', ''make'']]) True text
            in Inr (\<not> hasConfirmation \<and> \<not> hasProhibition)))"

definition rule_AGN_002 :: "'e rule" where
  "rule_AGN_002 =
     \<lparr>id' = ''AGN-002'', name = ''Write/Delete/Send Without Confirmation'',
      category = ''Excessive Agency'', severity = ''high'', owasp = ''LLM08'',
      patterns = None, test = Some test_AGN_002\<rparr>"

subsection \<open>Output Handling\<close>

text \<open>
  OUT-001 has no patterns.  Its test: \<open>mentionsSanitization\<close> is
  \<^verbatim>\<open>/(?:sanitiz|filter|validat|escap|strip|clean)\s*(?:output|response|html|javascript|markup)/i\<close>,
  \<open>mentionsFormat\<close> is \<^verbatim>\<open>/(?:only respond in|format.*(?:plain text|json|markdown))/i\<close>;
  the result is \<open>!mentionsSanitization && !mentionsFormat && text.length > 200\<close>.
\<close>

definition test_OUT_001 :: "jsstring \<Rightarrow> 'e + bool" where
  "test_OUT_001 text =
     (let mentionsSanitization =
            regexTest (seqs [anyOf [''sanitiz'', ''filter'', ''validat'', ''escap'', ''strip'',
                                    ''clean''],
                             zeroOrMore ws,
                             anyOf [''output'', ''response'', ''html'', ''javascript'', ''markup'']])
                      True text;
          mentionsFormat =
            regexTest (alts [lit ''only respond in'',
                             seqs [lit ''format'', zeroOrMore Dot,
                                   anyOf [''plain text'', ''json'', ''markdown'']]]) True text
      in Inr (\<not> mentionsSanitization \<and> \<not> mentionsFormat \<and> length text > 200))"

definition rule_OUT_001 :: "'e rule" where
  "rule_OUT_001 =
     \<lparr>id' = ''OUT-001'', name = ''No Output Sanitization Instructions'',
      category = ''Output Handling'', severity = ''medium'', owasp = ''LLM02'',
      patterns = None, test = Some test_OUT_001\<rparr>"

text \<open>
  OUT-002:
  \<^verbatim>\<open>/(?:execute|run|eval)\s+(?:the\s+)?(?:code|script|command|query)/gi\<close>,
  \<^verbatim>\<open>/(?:auto.?run|auto.?execut|dynamic.?execut)/gi\<close>.
\<close>

definition rule_OUT_002 :: "'e rule" where
  "rule_OUT_002 =
     \<lparr>id' = ''OUT-002'', name = ''Allows Code Execution or Eval'',
      category = ''Output Handling'', severity = ''critical'', owasp = ''LLM02'',
      patterns = Some
        [flagsGI (seqs [anyOf [''execute'', ''run'', ''eval''], oneOrMore ws,
                        optional (seqs [lit ''the'', oneOrMore ws]),
                        anyOf [''code'', ''script'', ''command'', ''query'']]),
         flagsGI (alts [seqs [lit ''auto'', optional Dot, lit ''run''],
                        seqs [lit ''auto'', optional Dot, lit ''execut''],
                        seqs [lit ''dynamic'', optional Dot, lit ''execut'']])],
      test = None\<rparr>"

subsection \<open>Attack Surface\<close>

text \<open>ATK-001 has no patterns; its test is \<open>text.length > 2000\<close>.\<close>

definition test_ATK_001 :: "jsstring \<Rightarrow> 'e + bool" where
  "test_ATK_001 text = Inr (length text > 2000)"

definition rule_ATK_001 :: "'e rule" where
  "rule_ATK_001 =
     \<lparr>id' = ''ATK-001'', name = ''Overly Detailed System Context'',
      category = ''Attack Surface'', severity = ''low'', owasp = ''LLM01'',
      patterns = None, test = Some test_ATK_001\<rparr>"

text \<open>
  ATK-002:
  \<^verbatim>\<open>/(?:you (?:can|may) (?:also |sometimes )?(?:act|respond|behave)\s+as)/gi\<close>,
  \<^verbatim>\<open>/(?:mode|persona|character|role)\s*[:=]/gi\<close>,
  \<^verbatim>\<open>/(?:when in .* mode|switch to .* mode|if .* mode)/gi\<close>.
\<close>

definition rule_ATK_002 :: "'e rule" where
  "rule_ATK_002 =
     \<lparr>id' = ''ATK-002'', name = ''Multi-Role or Persona Instructions'',
      category = ''Attack Surface'', severity = ''low'', owasp = ''LLM01'',
      patterns = Some
        [flagsGI (seqs [lit ''you '', anyOf [''can'', ''may''], lit '' '',
                        optional (anyOf [''also '', ''sometimes '']),
                        anyOf [''act'', ''respond'', ''behave''], oneOrMore ws, lit ''as'']),
         flagsGI (seqs [anyOf [''mode'', ''persona'', ''character'', ''role''],
                        zeroOrMore ws, oneOf (chars '':='')]),
         flagsGI (alts [seqs [lit ''when in '', zeroOrMore Dot, lit '' mode''],
                        seqs [lit ''switch to '', zeroOrMore Dot, lit '' mode''],
                        seqs [lit ''if '', zeroOrMore Dot, lit '' mode'']])],
      test = None\<rparr>"

text \<open>
  ATK-003:
  \<^verbatim>\<open>/(?:respond|format|output)\s+(?:in|using|with)\s+(?:markdown|html|rich text)/gi\<close>,
  \<^verbatim>\<open>/(?:include|use|render)\s+(?:images?|links?|html|markdown)/gi\<close>.
\<close>

definition rule_ATK_003 :: "'e rule" where
  "rule_ATK_003 =
     \<lparr>id' = ''ATK-003'', name = ''Markdown/HTML Rendering Enabled'',
      category = ''Attack Surface'', severity = ''low'', owasp = ''LLM02'',
      patterns = Some
        [flagsGI (seqs [anyOf [''respond'', ''format'', ''output''], oneOrMore ws,
                        anyOf [''in'', ''using'', ''with''], oneOrMore ws,
                        anyOf [''markdown'', ''html'', ''rich text'']]),
         flagsGI (seqs [anyOf [''include'', ''use'', ''render''], oneOrMore ws,
                        alts [seqs [lit ''image'', optional (lit ''s'')],
                              seqs [lit ''link'', optional (lit ''s'')],
                              lit ''html'', lit ''markdown'']])],
      test = None\<rparr>"

subsection \<open>The catalog\<close>

text \<open>The module-level array \<open>rules\<close>, as the module's evaluation constructs it.\<close>

definition rules :: "'e rule list" where
  "rules =
     [rule_SDE_001, rule_SDE_002, rule_SDE_003, rule_SDE_004, rule_SDE_005,
      rule_INJ_001, rule_INJ_002, rule_INJ_003,
      rule_AGN_001, rule_AGN_002,
      rule_OUT_001, rule_OUT_002,
      rule_ATK_001, rule_ATK_002, rule_ATK_003]"

section \<open>Scoring (bin/pi-scan.js)\<close>

text \<open>
  The body of the \<open>for\<close> loop of \<open>calculateScore\<close>: a \<open>switch\<close> on \<open>f.severity\<close>
  with four cases and no default, so any other severity leaves the score as it is.
\<close>

definition scoreStep :: "int \<Rightarrow> finding \<Rightarrow> int" where
  "scoreStep score f =
     (if severity f = ''critical'' then score - 25
      else if severity f = ''high'' then score - 15
      else if severity f = ''medium'' then score - 8
      else if severity f = ''low'' then score - 3
      else score)"

definition calculateScore :: "finding list \<Rightarrow> int" where
  "calculateScore findings = max 0 (foldl scoreStep 100 findings)"

text \<open>The penalty table as the specification words it.\<close>

definition severityPenalty :: "string \<Rightarrow> int" where
  "severityPenalty s =
     (if s = ''critical'' then 25 else if s = ''high'' then 15
      else if s = ''medium'' then 8 else if s = ''low'' then 3 else 0)"

section \<open>Notions used in the statements\<close>

subsection \<open>The engine as a function of the text\<close>

text \<open>
  What the loops compute, written without the loop state; \<open>scanRule_eq\<close> and
  \<open>fst_scanLoop\<close> below prove that the engine computes exactly this.

  \<open>resetRule\<close> is a rule after the engine has visited it: every pattern has
  \<open>lastIndex = 0\<close>.  \<open>ruleDetails\<close> are the match details of all matches of all patterns
  of a rule, in the order of the patterns and of the matches.  \<open>ruleOutcome\<close> is the
  outcome of the loop body for one rule, \<open>collect\<close> runs through the outcomes as the
  loop over the catalog does, and \<open>pushed\<close> is what one outcome adds to \<open>findings\<close>.
\<close>

definition resetPattern :: "regExp \<Rightarrow> regExp" where
  "resetPattern pattern = pattern\<lparr>lastIndex := 0\<rparr>"

definition resetRule :: "'e rule \<Rightarrow> 'e rule" where
  "resetRule rule = rule\<lparr>patterns := map_option (map resetPattern) (patterns rule)\<rparr>"

definition patternDetails :: "regExp list \<Rightarrow> jsstring \<Rightarrow> matchDetail list" where
  "patternDetails ps text =
     concat (map (\<lambda>p. map (matchDetailOf text) (matchAllFrom (source p) (ignoreCase p) text 0)) ps)"

definition ruleDetails :: "'e rule \<Rightarrow> jsstring \<Rightarrow> matchDetail list" where
  "ruleDetails rule text = (case patterns rule of None \<Rightarrow> [] | Some ps \<Rightarrow> patternDetails ps text)"

definition ruleOutcome :: "'e rule \<Rightarrow> jsstring \<Rightarrow> 'e + finding option" where
  "ruleOutcome rule text =
     (if ruleDetails rule text \<noteq> [] then Inr (Some (findingOf rule (ruleDetails rule text)))
      else (case test rule of
              None \<Rightarrow> Inr None
            | Some t \<Rightarrow>
                (case t text of
                   Inl e \<Rightarrow> Inl e
                 | Inr b \<Rightarrow> Inr (if b then Some (findingOf rule [structuralAnalysis]) else None))))"

fun collect :: "('e + finding option) list \<Rightarrow> finding list \<Rightarrow> 'e + finding list" where
  "collect [] acc = Inr acc"
| "collect (Inl e # os) acc = Inl e"
| "collect (Inr None # os) acc = collect os acc"
| "collect (Inr (Some f) # os) acc = collect os (acc @ [f])"

subsection \<open>Texts of white space only\<close>

text \<open>
  \<open>mayMatchWhiteSpace ic r\<close> is a syntactic test on a pattern: when it fails, the pattern
  requires a code unit that is not white space, and so has no match in a text of white
  space only (\<open>ends_whitespace\<close>).
\<close>

definition whitespaceOnly :: "jsstring \<Rightarrow> bool" where
  "whitespaceOnly t = list_all isWhiteSpace t"

fun itemMayBeWhiteSpace :: "bool \<Rightarrow> citem \<Rightarrow> bool" where
  "itemMayBeWhiteSpace ic (CUnit a) = isWhiteSpace (canonicalize ic a)"
| "itemMayBeWhiteSpace ic (CRange lo hi) = list_ex (\<lambda>a. isWhiteSpace (canonicalize ic a)) [lo..<Suc hi]"
| "itemMayBeWhiteSpace ic CSpace = True"
| "itemMayBeWhiteSpace ic CDigit = False"
| "itemMayBeWhiteSpace ic CWord = False"

fun mayMatchWhiteSpace :: "bool \<Rightarrow> regex \<Rightarrow> bool" where
  "mayMatchWhiteSpace ic (Lit a) = isWhiteSpace (canonicalize ic a)"
| "mayMatchWhiteSpace ic (Cls neg items) = (neg \<or> list_ex (itemMayBeWhiteSpace ic) items)"
| "mayMatchWhiteSpace ic Dot = True"
| "mayMatchWhiteSpace ic WordB = True"
| "mayMatchWhiteSpace ic Eps = True"
| "mayMatchWhiteSpace ic (Seq a b) = (mayMatchWhiteSpace ic a \<and> mayMatchWhiteSpace ic b)"
| "mayMatchWhiteSpace ic (Alt a b) = (mayMatchWhiteSpace ic a \<or> mayMatchWhiteSpace ic b)"
| "mayMatchWhiteSpace ic (Rep mn mx r) = (mn = 0 \<or> mx = Some 0 \<or> mayMatchWhiteSpace ic r)"

subsection \<open>What one outcome adds to the findings\<close>

fun pushed :: "'e + finding option \<Rightarrow> finding list" where
  "pushed (Inr (Some f)) = [f]"
| "pushed (Inr None) = []"
| "pushed (Inl e) = []"

subsection \<open>Catalog states and rules used in examples\<close>

text \<open>
  \<open>withLastIndex n rule\<close> is the rule with \<open>lastIndex = n\<close> in each of its patterns:
  a state of the pattern objects other than the constructed one.  \<open>throwingRule i e\<close> is
  a rule with id \<open>i\<close>, without patterns, whose test is \<open>(text) => { throw e }\<close>; the
  catalog has no such rule.
\<close>

definition withLastIndex :: "nat \<Rightarrow> 'e rule \<Rightarrow> 'e rule" where
  "withLastIndex n rule =
     rule\<lparr>patterns := map_option (map (\<lambda>p. p\<lparr>lastIndex := n\<rparr>)) (patterns rule)\<rparr>"

definition alwaysThrows :: "'e \<Rightarrow> jsstring \<Rightarrow> 'e + bool" where
  "alwaysThrows e text = Inl e"

definition throwingRule :: "string \<Rightarrow> 'e \<Rightarrow> 'e rule" where
  "throwingRule i e =
     \<lparr>id' = i, name = ''Throwing rule'', category = ''Attack Surface'', severity = ''low'',
      owasp = ''LLM01'', patterns = None, test = Some (alwaysThrows e)\<rparr>"

section \<open>Properties of the score\<close>

lemma scoreStep_penalty: "scoreStep s f = s - severityPenalty (severity f)"
  by (simp add: scoreStep_def severityPenalty_def)

lemma foldl_scoreStep:
  "foldl scoreStep s fs = s - sum_list (map (\<lambda>f. severityPenalty (severity f)) fs)"
  by (induction fs arbitrary: s) (simp_all add: scoreStep_penalty)

lemma severityPenalty_nonneg: "0 \<le> severityPenalty s"
  by (simp add: severityPenalty_def)

lemma sum_penalty_nonneg: "0 \<le> sum_list (map (\<lambda>f. severityPenalty (severity f)) fs)"
  by (induction fs) (simp_all add: severityPenalty_nonneg)

lemma calculateScore_eq:
  "calculateScore fs = max 0 (100 - sum_list (map (\<lambda>f. severityPenalty (severity f)) fs))"
  by (simp add: calculateScore_def foldl_scoreStep)

lemma sum_penalty_mset:
  "sum_list (map (\<lambda>f. severityPenalty (severity f)) fs)
     = sum_mset (image_mset severityPenalty (mset (map severity fs)))"
proof -
  have "map (\<lambda>f. severityPenalty (severity f)) fs = map severityPenalty (map severity fs)"
    by simp
  then show ?thesis
    by (metis mset_map sum_mset_sum_list)
qed

text \<open>
  Claim C1.  The score starts at 100 and loses 25, 15, 8 or 3 for each finding of severity
  critical, high, medium or low; the result is clamped below at 0 and never exceeds 100.
  Hence the empty list scores 100, a list of one critical finding scores 75, and a list
  holding exactly one finding of each of the four severities (in any order) scores 49.
\<close>

theorem calculateScore_penalty_model:
  "calculateScore fs = max 0 (100 - sum_list (map (\<lambda>f. severityPenalty (severity f)) fs))
   \<and> 0 \<le> calculateScore fs \<and> calculateScore fs \<le> 100
   \<and> calculateScore [] = 100
   \<and> (severity f = ''critical'' \<longrightarrow> calculateScore [f] = 75)
   \<and> (mset (map severity fs) = {#''critical'', ''high'', ''medium'', ''low''#}
        \<longrightarrow> calculateScore fs = 49)"
proof -
  have bounds: "0 \<le> calculateScore fs \<and> calculateScore fs \<le> 100"
    using sum_penalty_nonneg [of fs] by (simp add: calculateScore_eq)
  have empty: "calculateScore [] = 100"
    by (simp add: calculateScore_def)
  have one: "severity f = ''critical'' \<longrightarrow> calculateScore [f] = 75"
    by (simp add: calculateScore_def scoreStep_def)
  have four: "calculateScore fs = 49"
    if "mset (map severity fs) = {#''critical'', ''high'', ''medium'', ''low''#}"
  proof -
    have "sum_list (map (\<lambda>f. severityPenalty (severity f)) fs) = 51"
      unfolding sum_penalty_mset that by (simp add: severityPenalty_def)
    then show ?thesis by (simp add: calculateScore_eq)
  qed
  from bounds empty one four show ?thesis
    using calculateScore_eq by blast
qed

theorem calculateScore_penalty_model_witness:
  "severity \<lparr>id' = ''OUT-002'', name = ''n'', category = ''c'', severity = ''critical'',
             owasp = ''LLM02'', matches = []\<rparr> = ''critical''
   \<and> calculateScore [\<lparr>id' = ''OUT-002'', name = ''n'', category = ''c'',
        severity = ''critical'', owasp = ''LLM02'', matches = []\<rparr>] = 75
   \<and> mset (map severity
        [\<lparr>id' = ''A'', name = ''n'', category = ''c'', severity = ''critical'',
            owasp = ''o'', matches = []\<rparr>,
         \<lparr>id' = ''B'', name = ''n'', category = ''c'', severity = ''high'',
            owasp = ''o'', matches = []\<rparr>,
         \<lparr>id' = ''C'', name = ''n'', category = ''c'', severity = ''medium'',
            owasp = ''o'', matches = []\<rparr>,
         \<lparr>id' = ''D'', name = ''n'', category = ''c'', severity = ''low'',
            owasp = ''o'', matches = []\<rparr>])
       = {#''critical'', ''high'', ''medium'', ''low''#}
   \<and> calculateScore
        [\<lparr>id' = ''A'', name = ''n'', category = ''c'', severity = ''critical'',
            owasp = ''o'', matches = []\<rparr>,
         \<lparr>id' = ''B'', name = ''n'', category = ''c'', severity = ''high'',
            owasp = ''o'', matches = []\<rparr>,
         \<lparr>id' = ''C'', name = ''n'', category = ''c'', severity = ''medium'',
            owasp = ''o'', matches = []\<rparr>,
         \<lparr>id' = ''D'', name = ''n'', category = ''c'', severity = ''low'',
            owasp = ''o'', matches = []\<rparr>] = 49"
  using calculateScore_penalty_model
    [of "[\<lparr>id' = ''A'', name = ''n'', category = ''c'', severity = ''critical'',
            owasp = ''o'', matches = []\<rparr>,
         \<lparr>id' = ''B'', name = ''n'', category = ''c'', severity = ''high'',
            owasp = ''o'', matches = []\<rparr>,
         \<lparr>id' = ''C'', name = ''n'', category = ''c'', severity = ''medium'',
            owasp = ''o'', matches = []\<rparr>,
         \<lparr>id' = ''D'', name = ''n'', category = ''c'', severity = ''low'',
            owasp = ''o'', matches = []\<rparr>]"
        "\<lparr>id' = ''OUT-002'', name = ''n'', category = ''c'', severity = ''critical'',
             owasp = ''LLM02'', matches = []\<rparr>"]
  by simp

text \<open>
  Claim C6.  Adding one finding to a finding list, at any position, never increases the
  score, and the score of every finding list lies between 0 and 100.
\<close>

theorem calculateScore_monotone:
  "calculateScore (xs @ f # ys) \<le> calculateScore (xs @ ys)
   \<and> 0 \<le> calculateScore fs \<and> calculateScore fs \<le> 100"
proof -
  have "calculateScore (xs @ f # ys) \<le> calculateScore (xs @ ys)"
    using severityPenalty_nonneg [of "severity f"] by (simp add: calculateScore_eq)
  moreover have "0 \<le> calculateScore fs \<and> calculateScore fs \<le> 100"
    using sum_penalty_nonneg [of fs] by (simp add: calculateScore_eq)
  ultimately show ?thesis by simp
qed

section \<open>Properties of the matcher and of the engine\<close>

subsection \<open>Bounds of the matcher\<close>

lemma repeatMatcher_bounds:
  "x \<le> n \<Longrightarrow> y \<in> set (repeatMatcher m n mn mx x) \<Longrightarrow> x \<le> y \<and> y \<le> n"
proof (induction m n mn mx x arbitrary: y rule: repeatMatcher.induct)
  case (1 m' n mn mx x)
  show ?case
  proof (cases "mx = Some 0")
    case True
    with "1.prems" show ?thesis by (simp add: repeatMatcher.simps)
  next
    case False
    from "1.prems"(2) False
    consider (here) "y = x"
      | (step) z where "z \<in> set (m' x)" "\<not> (mn = 0 \<and> z = x)" "\<not> (z < x \<or> n < z)"
          "y \<in> set (repeatMatcher m' n (mn - 1) (map_option (\<lambda>k. k - 1) mx) z)"
      by (subst (asm) repeatMatcher.simps) (auto simp: Let_def split: if_splits)
    then show ?thesis
    proof cases
      case here
      with "1.prems" show ?thesis by simp
    next
      case step
      have "z \<le> n" using step(3) by simp
      from "1.IH" [OF False step(1) step(2) step(3) this step(4)]
      have "z \<le> y \<and> y \<le> n" .
      moreover have "x \<le> z" using step(3) by simp
      ultimately show ?thesis by simp
    qed
  qed
qed

lemma ends_bounds:
  "i \<le> length t \<Longrightarrow> e \<in> set (ends r ic t i) \<Longrightarrow> i \<le> e \<and> e \<le> length t"
proof (induction r arbitrary: i e)
  case (Lit a)
  then show ?case by (simp split: if_splits)
next
  case (Cls neg items)
  then show ?case by (simp split: if_splits)
next
  case Dot
  then show ?case by (simp split: if_splits)
next
  case WordB
  then show ?case by (simp split: if_splits)
next
  case Eps
  then show ?case by simp
next
  case (Seq a b)
  from Seq.prems(2) obtain j where j: "j \<in> set (ends a ic t i)" "e \<in> set (ends b ic t j)"
    by auto
  from Seq.IH(1) [OF Seq.prems(1) j(1)] have ij: "i \<le> j \<and> j \<le> length t" .
  with Seq.IH(2) [OF _ j(2)] show ?case by simp
next
  case (Alt a b)
  from Alt.prems(2) have "e \<in> set (ends a ic t i) \<or> e \<in> set (ends b ic t i)" by simp
  with Alt.IH(1) [OF Alt.prems(1)] Alt.IH(2) [OF Alt.prems(1)] show ?case by blast
next
  case (Rep mn mx r)
  from Rep.prems(2) have "e \<in> set (repeatMatcher (ends r ic t) (length t) mn mx i)" by simp
  with repeatMatcher_bounds [OF Rep.prems(1)] show ?case by blast
qed

text \<open>The guard in \<open>repeatMatcher\<close> never fires for the matcher of a pattern.\<close>

lemma repeatMatcher_ends:
  assumes "x \<le> length t"
  shows "repeatMatcher (ends r ic t) (length t) mn mx x =
     (if mx = Some 0 then [x]
      else let z = concat (map (\<lambda>y. if mn = 0 \<and> y = x then []
                                      else repeatMatcher (ends r ic t) (length t) (mn - 1)
                                             (map_option (\<lambda>k. k - 1) mx) y)
                              (ends r ic t x))
           in if mn \<noteq> 0 then z else z @ [x])"
proof -
  have b: "\<not> (y < x \<or> length t < y)" if "y \<in> set (ends r ic t x)" for y
    using ends_bounds [OF assms that] by auto
  have eq: "map (\<lambda>y. if mn = 0 \<and> y = x then []
                  else if y < x \<or> length t < y then []
                  else repeatMatcher (ends r ic t) (length t) (mn - 1)
                         (map_option (\<lambda>k. k - 1) mx) y) (ends r ic t x)
      = map (\<lambda>y. if mn = 0 \<and> y = x then []
                  else repeatMatcher (ends r ic t) (length t) (mn - 1)
                         (map_option (\<lambda>k. k - 1) mx) y) (ends r ic t x)"
    by (rule map_cong [OF refl]) (simp only: b if_False)
  show ?thesis
    by (subst repeatMatcher.simps) (simp only: eq)
qed

lemma searchFrom_bounds:
  "searchFrom r ic t li = Some (i, e) \<Longrightarrow> li \<le> i \<and> i \<le> length t \<and> i \<le> e \<and> e \<le> length t"
proof (induction r ic t li rule: searchFrom.induct)
  case (1 r ic t li)
  from "1.prems" have le: "\<not> length t < li"
    by (subst (asm) searchFrom.simps) (simp split: if_splits)
  show ?case
  proof (cases "ends r ic t li")
    case Nil
    with "1.prems" le have "searchFrom r ic t (li + 1) = Some (i, e)"
      by (subst (asm) searchFrom.simps) simp
    from "1.IH" [OF le Nil this] show ?thesis by simp
  next
    case (Cons e' es)
    with "1.prems" le have eq: "i = li \<and> e = e'"
      by (subst (asm) searchFrom.simps) simp
    have "e' \<in> set (ends r ic t li)" using Cons by simp
    with ends_bounds [of li t e' r ic] le eq show ?thesis by simp
  qed
qed

lemma matchAllFrom_unfold:
  "matchAllFrom r ic t li =
     (case searchFrom r ic t li of
        None \<Rightarrow> []
      | Some (i, e) \<Rightarrow> (slice t i e, i) # matchAllFrom r ic t (if e = i then e + 1 else e))"
proof (cases "searchFrom r ic t li")
  case None
  then show ?thesis by (subst matchAllFrom.simps) simp
next
  case (Some p)
  obtain i e where p: "p = (i, e)" by (cases p)
  from searchFrom_bounds [of r ic t li i e] Some p
  have "li \<le> i \<and> i \<le> length t \<and> i \<le> e" by simp
  then have "\<not> ((if e = i then e + 1 else e) \<le> li \<or> length t < li)" by auto
  with Some p show ?thesis by (subst matchAllFrom.simps) (simp add: Let_def)
qed

lemma matchAllFrom_index:
  "m \<in> set (matchAllFrom r ic t li) \<Longrightarrow> li \<le> snd m \<and> snd m \<le> length t"
proof (induction r ic t li rule: matchAllFrom.induct)
  case (1 r ic t li)
  show ?case
  proof (cases "searchFrom r ic t li")
    case None
    with "1.prems" show ?thesis by (subst (asm) matchAllFrom.simps) simp
  next
    case (Some p)
    obtain i e where p: "p = (i, e)" by (cases p)
    from searchFrom_bounds [of r ic t li i e] Some p
    have b: "li \<le> i \<and> i \<le> length t \<and> i \<le> e" by simp
    then have g: "\<not> ((if e = i then e + 1 else e) \<le> li \<or> length t < li)" by auto
    from "1.prems" Some p g
    consider "m = (slice t i e, i)" | "m \<in> set (matchAllFrom r ic t (if e = i then e + 1 else e))"
      by (subst (asm) matchAllFrom.simps) (auto simp: Let_def)
    then show ?thesis
    proof cases
      case 1
      with b show ?thesis by simp
    next
      case 2
      from "1.IH" [OF Some p [symmetric] refl g 2] b show ?thesis by (auto split: if_splits)
    qed
  qed
qed

subsection \<open>Line numbers\<close>

lemma split_nonempty: "split sep s \<noteq> []"
  by (induction s) (auto split: list.splits)

lemma length_split: "length (split sep s) = 1 + count_list s sep"
  by (induction s) (auto split: list.splits simp: split_nonempty)

lemma substring_0: "substring s 0 k = take k s"
  by (simp add: substring_def Let_def min_def)

lemma line_matchDetailOf:
  "line (matchDetailOf text m) = 1 + count_list (take (snd m) text) 10"
  by (simp add: matchDetailOf_def substring_0 length_split)

subsection \<open>What the loops compute\<close>

lemma scanPatterns_eq:
  "scanPatterns ps text (matched, ds) =
     ((matched \<or> patternDetails ps text \<noteq> [], ds @ patternDetails ps text), map resetPattern ps)"
proof (induction ps arbitrary: matched ds)
  case Nil
  show ?case by (simp add: patternDetails_def)
next
  case (Cons p ps)
  have pd: "patternDetails (p # ps) text =
      map (matchDetailOf text) (matchAllFrom (source p) (ignoreCase p) text 0) @ patternDetails ps text"
    by (simp add: patternDetails_def)
  show ?case
    by (simp add: Cons.IH pd matchAll_def resetPattern_def Let_def)
qed

lemma scanRule_eq: "scanRule rule text = (ruleOutcome rule text, resetRule rule)"
proof (cases "patterns rule")
  case None
  have r: "resetRule rule = rule" by (simp add: resetRule_def None)
  show ?thesis
    by (simp add: scanRule_def ruleOutcome_def ruleDetails_def None r
        split: option.splits sum.splits)
next
  case (Some ps)
  have r: "resetRule rule = rule\<lparr>patterns := Some (map resetPattern ps)\<rparr>"
    by (simp add: resetRule_def Some)
  show ?thesis
    by (simp add: scanRule_def ruleOutcome_def ruleDetails_def Some r scanPatterns_eq
        split: option.splits sum.splits)
qed

lemma fst_scanLoop:
  "fst (scanLoop rs text acc) = collect (map (\<lambda>r. ruleOutcome r text) rs) acc"
proof (induction rs arbitrary: acc)
  case Nil
  show ?case by simp
next
  case (Cons r rs)
  show ?case
  proof (cases "ruleOutcome r text")
    case (Inl e)
    then show ?thesis by (simp add: scanRule_eq)
  next
    case (Inr o1)
    then show ?thesis
      by (cases o1) (simp_all add: scanRule_eq Cons.IH case_prod_beta)
  qed
qed

lemma collect_append:
  "collect (xs @ ys) acc = (case collect xs acc of Inl e \<Rightarrow> Inl e | Inr acc' \<Rightarrow> collect ys acc')"
proof (induction xs acc rule: collect.induct)
qed simp_all

lemma snd_scanLoop_ok:
  "fst (scanLoop rs text acc) = Inr fs \<Longrightarrow> snd (scanLoop rs text acc) = map resetRule rs"
proof (induction rs arbitrary: acc)
  case Nil
  show ?case by simp
next
  case (Cons r rs)
  show ?case
  proof (cases "ruleOutcome r text")
    case (Inl e)
    with Cons.prems show ?thesis by (simp add: scanRule_eq)
  next
    case (Inr o1)
    show ?thesis
    proof (cases o1)
      case None
      with Inr Cons.prems have "fst (scanLoop rs text acc) = Inr fs"
        by (simp add: scanRule_eq case_prod_beta)
      from Cons.IH [OF this] Inr None show ?thesis
        by (simp add: scanRule_eq case_prod_beta)
    next
      case (Some f)
      with Inr Cons.prems have "fst (scanLoop rs text (acc @ [f])) = Inr fs"
        by (simp add: scanRule_eq case_prod_beta)
      from Cons.IH [OF this] Inr Some show ?thesis
        by (simp add: scanRule_eq case_prod_beta)
    qed
  qed
qed

subsection \<open>Patterns on texts of white space only\<close>

lemma canonicalize_whitespace: "isWhiteSpace c \<Longrightarrow> canonicalize ic c = c"
  by (auto simp: canonicalize_def isWhiteSpace_def)

lemma itemMatches_whitespace:
  "isWhiteSpace c \<Longrightarrow> itemMatches ic c item \<Longrightarrow> itemMayBeWhiteSpace ic item"
proof (cases item)
  case (CUnit a)
  assume "isWhiteSpace c" "itemMatches ic c item"
  with CUnit show ?thesis by (simp add: canonicalize_whitespace)
next
  case (CRange lo hi)
  assume "isWhiteSpace c" "itemMatches ic c item"
  with CRange show ?thesis by (auto simp: canonicalize_whitespace list_ex_iff)
next
  case CSpace
  then show ?thesis by simp
next
  case CDigit
  assume "isWhiteSpace c" "itemMatches ic c item"
  with CDigit show ?thesis by (auto simp: isWhiteSpace_def)
next
  case CWord
  assume "isWhiteSpace c" "itemMatches ic c item"
  with CWord show ?thesis by (auto simp: isWhiteSpace_def isWordChar_def)
qed

lemma repeatMatcher_no_iteration:
  assumes "\<And>y. m y = []" "mx \<noteq> Some 0" "mn \<noteq> 0"
  shows "repeatMatcher m n mn mx x = []"
  using assms by (subst repeatMatcher.simps) simp

lemma ends_whitespace:
  assumes ws: "whitespaceOnly t"
  shows "\<not> mayMatchWhiteSpace ic r \<Longrightarrow> ends r ic t i = []"
proof (induction r arbitrary: i)
  case (Lit a)
  have "canonicalize ic (t ! i) \<noteq> canonicalize ic a" if "i < length t"
  proof -
    from ws that have w: "isWhiteSpace (t ! i)" by (simp add: whitespaceOnly_def list_all_length)
    with Lit.prems show ?thesis by (auto simp: canonicalize_whitespace)
  qed
  then show ?case by auto
next
  case (Cls neg items)
  then have neg: "\<not> neg" and it: "\<not> list_ex (itemMayBeWhiteSpace ic) items" by simp_all
  have "\<not> list_ex (itemMatches ic (t ! i)) items" if "i < length t"
  proof -
    from ws that have w: "isWhiteSpace (t ! i)" by (simp add: whitespaceOnly_def list_all_length)
    with it itemMatches_whitespace [OF w] show ?thesis by (auto simp: list_ex_iff)
  qed
  with neg show ?case by auto
next
  case Dot
  then show ?case by simp
next
  case WordB
  then show ?case by simp
next
  case Eps
  then show ?case by simp
next
  case (Seq a b)
  show ?case
  proof (cases "mayMatchWhiteSpace ic a")
    case False
    with Seq.IH(1) show ?thesis by simp
  next
    case True
    with Seq.prems have "\<not> mayMatchWhiteSpace ic b" by simp
    with Seq.IH(2) have "\<And>j. ends b ic t j = []" by simp
    then show ?thesis by simp
  qed
next
  case (Alt a b)
  with Alt.IH show ?case by simp
next
  case (Rep mn mx r)
  then have "\<And>y. ends r ic t y = []" "mx \<noteq> Some 0" "mn \<noteq> 0" by simp_all
  then show ?case by (simp add: repeatMatcher_no_iteration)
qed

lemma searchFrom_no_match:
  "(\<And>i. ends r ic t i = []) \<Longrightarrow> searchFrom r ic t li = None"
proof (induction r ic t li rule: searchFrom.induct)
  case (1 r ic t li)
  show ?case
  proof (cases "length t < li")
    case True
    then show ?thesis by (subst searchFrom.simps) simp
  next
    case False
    from "1.IH" [OF False "1.prems" [of li] "1.prems"] have "searchFrom r ic t (li + 1) = None" .
    with False "1.prems" [of li] show ?thesis by (subst searchFrom.simps) simp
  qed
qed

lemma searchFrom_whitespace:
  "whitespaceOnly t \<Longrightarrow> \<not> mayMatchWhiteSpace ic r \<Longrightarrow> searchFrom r ic t li = None"
  by (rule searchFrom_no_match) (rule ends_whitespace)

lemma regexTest_whitespace:
  "whitespaceOnly t \<Longrightarrow> \<not> mayMatchWhiteSpace ic r \<Longrightarrow> regexTest r ic t = False"
  by (simp add: regexTest_def searchFrom_whitespace)

lemma matchAllFrom_whitespace:
  "whitespaceOnly t \<Longrightarrow> \<not> mayMatchWhiteSpace ic r \<Longrightarrow> matchAllFrom r ic t li = []"
  by (subst matchAllFrom.simps) (simp add: searchFrom_whitespace)

subsection \<open>Evaluation of the catalog\<close>

lemmas matcher_eval = repeatMatcher.simps searchFrom.simps matchAllFrom.simps regexTest_def
  canonicalize_def isWhiteSpace_def isLineTerminator_def isWordChar_def isWordBoundary_def
  slice_def substring_def toLowerCase_def startsWith_def matchDetailOf_def Let_def

lemmas catalog_defs = rule_SDE_001_def rule_SDE_002_def rule_SDE_003_def rule_SDE_004_def
  rule_SDE_005_def rule_INJ_001_def rule_INJ_002_def rule_INJ_003_def rule_AGN_001_def
  rule_AGN_002_def rule_OUT_001_def rule_OUT_002_def rule_ATK_001_def rule_ATK_002_def
  rule_ATK_003_def test_SDE_003_def test_INJ_001_def test_INJ_002_def test_INJ_003_def
  test_AGN_001_def test_AGN_002_def test_OUT_001_def test_ATK_001_def emailPattern_def
  defensePatterns_def destructivePattern_def

lemmas notation_defs = anyOf_def optional_def zeroOrMore_def oneOrMore_def nOrMore_def exactly_def
  chars_def charRange_def oneOf_def ws_def nonWs_def digit_def alnum_def flagsG_def flagsGI_def js_def

lemmas outcome_defs = ruleOutcome_def ruleDetails_def patternDetails_def

lemmas whitespace_eval = matchAllFrom_whitespace regexTest_whitespace canonicalize_def
  isWhiteSpace_def

lemma ws_SDE_001: "whitespaceOnly t \<Longrightarrow> ruleOutcome (rule_SDE_001 :: 'e rule) t = Inr None"
  by (simp add: outcome_defs rule_SDE_001_def notation_defs whitespace_eval)

lemma ws_SDE_002: "whitespaceOnly t \<Longrightarrow> ruleOutcome (rule_SDE_002 :: 'e rule) t = Inr None"
  by (simp add: outcome_defs rule_SDE_002_def notation_defs whitespace_eval)

lemma ws_SDE_003: "whitespaceOnly t \<Longrightarrow> ruleOutcome (rule_SDE_003 :: 'e rule) t = Inr None"
  by (simp add: outcome_defs rule_SDE_003_def test_SDE_003_def emailPattern_def notation_defs
      whitespace_eval)

lemma ws_SDE_004: "whitespaceOnly t \<Longrightarrow> ruleOutcome (rule_SDE_004 :: 'e rule) t = Inr None"
  by (simp add: outcome_defs rule_SDE_004_def notation_defs whitespace_eval)

lemma ws_SDE_005: "whitespaceOnly t \<Longrightarrow> ruleOutcome (rule_SDE_005 :: 'e rule) t = Inr None"
  by (simp add: outcome_defs rule_SDE_005_def notation_defs whitespace_eval)

lemma ws_INJ_001:
  "whitespaceOnly t \<Longrightarrow>
   ruleOutcome (rule_INJ_001 :: 'e rule) t
     = Inr (Some (findingOf (rule_INJ_001 :: 'e rule) [structuralAnalysis]))"
  by (simp add: outcome_defs rule_INJ_001_def test_INJ_001_def defensePatterns_def notation_defs
      whitespace_eval)

lemma ws_INJ_002: "whitespaceOnly t \<Longrightarrow> ruleOutcome (rule_INJ_002 :: 'e rule) t = Inr None"
  by (simp add: outcome_defs rule_INJ_002_def test_INJ_002_def notation_defs whitespace_eval)

lemma ws_INJ_003:
  "whitespaceOnly t \<Longrightarrow>
   ruleOutcome (rule_INJ_003 :: 'e rule) t
     = Inr (if 100 < length t then Some (findingOf (rule_INJ_003 :: 'e rule) [structuralAnalysis])
            else None)"
  by (simp add: outcome_defs rule_INJ_003_def test_INJ_003_def notation_defs whitespace_eval)

lemma ws_AGN_001: "whitespaceOnly t \<Longrightarrow> ruleOutcome (rule_AGN_001 :: 'e rule) t = Inr None"
  by (simp add: outcome_defs rule_AGN_001_def test_AGN_001_def notation_defs whitespace_eval)

lemma ws_AGN_002: "whitespaceOnly t \<Longrightarrow> ruleOutcome (rule_AGN_002 :: 'e rule) t = Inr None"
  by (simp add: outcome_defs rule_AGN_002_def test_AGN_002_def destructivePattern_def
      notation_defs whitespace_eval)

lemma ws_OUT_001:
  "whitespaceOnly t \<Longrightarrow>
   ruleOutcome (rule_OUT_001 :: 'e rule) t
     = Inr (if 200 < length t then Some (findingOf (rule_OUT_001 :: 'e rule) [structuralAnalysis])
            else None)"
  by (simp add: outcome_defs rule_OUT_001_def test_OUT_001_def notation_defs whitespace_eval)

lemma ws_OUT_002: "whitespaceOnly t \<Longrightarrow> ruleOutcome (rule_OUT_002 :: 'e rule) t = Inr None"
  by (simp add: outcome_defs rule_OUT_002_def notation_defs whitespace_eval)

lemma ws_ATK_001:
  "ruleOutcome (rule_ATK_001 :: 'e rule) t
     = Inr (if 2000 < length t then Some (findingOf (rule_ATK_001 :: 'e rule) [structuralAnalysis])
            else None)"
  by (simp add: outcome_defs rule_ATK_001_def test_ATK_001_def)

lemma ws_ATK_002: "whitespaceOnly t \<Longrightarrow> ruleOutcome (rule_ATK_002 :: 'e rule) t = Inr None"
  by (simp add: outcome_defs rule_ATK_002_def notation_defs whitespace_eval)

lemma ws_ATK_003: "whitespaceOnly t \<Longrightarrow> ruleOutcome (rule_ATK_003 :: 'e rule) t = Inr None"
  by (simp add: outcome_defs rule_ATK_003_def notation_defs whitespace_eval)

subsection \<open>The result of a scan\<close>

lemma collect_Inr_iff:
  "collect os acc = Inr fs \<longleftrightarrow>
     list_all (\<lambda>o1. \<not> isl o1) os \<and> fs = acc @ concat (map pushed os)"
  by (induction os acc rule: collect.induct) auto

lemma collect_Inl_append:
  "collect xs acc = Inr fs0 \<Longrightarrow> collect (xs @ Inl e # ys) acc = Inl e"
  by (simp add: collect_append)

lemma scanPrompt_fst:
  "fst (scanPrompt text catalog) = collect (map (\<lambda>r. ruleOutcome r text) catalog) []"
  by (simp add: scanPrompt_def fst_scanLoop)

lemma scanPrompt_Inr_iff:
  "fst (scanPrompt text catalog) = Inr fs \<longleftrightarrow>
     list_all (\<lambda>r. \<not> isl (ruleOutcome r text)) catalog
     \<and> fs = concat (map (\<lambda>r. pushed (ruleOutcome r text)) catalog)"
  by (simp add: scanPrompt_fst collect_Inr_iff list_all_iff comp_def)

lemma pushed_ruleOutcome:
  assumes "f \<in> set (pushed (ruleOutcome rule text))"
  shows "f = findingOf rule (matches f) \<and>
         (matches f = ruleDetails rule text \<and> ruleDetails rule text \<noteq> []
          \<or> matches f = [structuralAnalysis] \<and> ruleDetails rule text = []
              \<and> (\<exists>t. test rule = Some t \<and> t text = Inr True))"
proof (cases "ruleDetails rule text = []")
  case False
  with assms show ?thesis by (simp add: ruleOutcome_def findingOf_def)
next
  case True
  with assms show ?thesis
    by (auto simp: ruleOutcome_def findingOf_def split: option.splits sum.splits if_splits)
qed

lemma ruleDetails_member:
  assumes "d \<in> set (ruleDetails rule text)"
  shows "\<exists>ps p m. patterns rule = Some ps \<and> p \<in> set ps
           \<and> m \<in> set (matchAll text (p\<lparr>lastIndex := 0\<rparr>)) \<and> d = matchDetailOf text m"
proof (cases "patterns rule")
  case None
  with assms show ?thesis by (simp add: ruleDetails_def)
next
  case (Some ps)
  with assms obtain p m where "p \<in> set ps"
      "m \<in> set (matchAllFrom (source p) (ignoreCase p) text 0)" "d = matchDetailOf text m"
    by (auto simp: ruleDetails_def patternDetails_def)
  with Some show ?thesis
    by (intro exI [of _ ps] exI [of _ p] exI [of _ m]) (simp add: matchAll_def)
qed

lemma matchAll_reset_index:
  "m \<in> set (matchAll text (p\<lparr>lastIndex := 0\<rparr>)) \<Longrightarrow> snd m \<le> length text"
  using matchAllFrom_index [of m "source p" "ignoreCase p" "text" 0] by (simp add: matchAll_def)

subsection \<open>Line attribution of the matches\<close>

lemma ruleDetails_Some:
  "patterns rule = Some ps \<Longrightarrow>
   ruleDetails rule text
     = concat (map (\<lambda>p. map (\<lambda>m. \<lparr>match = take 80 (fst m), index = snd m,
                                      line = 1 + count_list (take (snd m) text) 10\<rparr>)
                               (matchAll text (p\<lparr>lastIndex := 0\<rparr>))) ps)"
proof -
  have "matchDetailOf text
          = (\<lambda>m. \<lparr>match = take 80 (fst m), index = snd m,
                     line = 1 + count_list (take (snd m) text) 10\<rparr>)"
    by (simp add: fun_eq_iff matchDetailOf_def substring_0 length_split)
  then show "patterns rule = Some ps \<Longrightarrow> ?thesis"
    by (simp add: ruleDetails_def patternDetails_def matchAll_def)
qed

lemma ruleDetails_empty_iff:
  "ruleDetails rule text = [] \<longleftrightarrow>
     (case patterns rule of None \<Rightarrow> True
      | Some ps \<Rightarrow> list_all (\<lambda>p. matchAll text (p\<lparr>lastIndex := 0\<rparr>) = []) ps)"
  by (cases "patterns rule")
     (auto simp: ruleDetails_def patternDetails_def matchAll_def list_all_iff)

lemma ruleDetails_entry:
  assumes "patterns rule = Some ps" and "d \<in> set (ruleDetails rule text)"
  shows "d \<noteq> structuralAnalysis \<and> index d \<le> length text
     \<and> line d = 1 + count_list (take (index d) text) 10
     \<and> (\<exists>p m. p \<in> set ps \<and> m \<in> set (matchAll text (p\<lparr>lastIndex := 0\<rparr>))
            \<and> match d = take 80 (fst m) \<and> index d = snd m)"
proof -
  from ruleDetails_member [OF assms(2)] assms(1) obtain p m where m: "p \<in> set ps"
      "m \<in> set (matchAll text (p\<lparr>lastIndex := 0\<rparr>))" "d = matchDetailOf text m"
    by auto
  have i: "index d = snd m" and t: "match d = take 80 (fst m)"
    using m(3) by (simp_all add: matchDetailOf_def substring_0)
  have l: "line d = 1 + count_list (take (index d) text) 10"
    using m(3) i by (simp add: line_matchDetailOf)
  then have "line d \<noteq> 0" by simp
  then have "d \<noteq> structuralAnalysis" by (auto simp: structuralAnalysis_def)
  moreover have "index d \<le> length text"
    using matchAll_reset_index [OF m(2)] i by simp
  ultimately show ?thesis using l i t m(1,2) by blast
qed

text \<open>
  Claim C2.  Every finding that \<open>scanPrompt\<close> returns belongs to a rule of the catalog, and
  its \<open>matches\<close> are of one of two kinds.  Either no pattern of the rule has a match and
  \<open>matches\<close> is the single entry pushed for a successful test.  Or \<open>matches\<close> holds, for
  each pattern of the rule in order and each match \<open>m\<close> of that pattern in order, the entry
  with the first 80 code units of \<open>m[0]\<close>, the offset \<open>m.index\<close>, and as \<open>line\<close> 1 plus
  the number of line feeds (code unit 10) among the first \<open>m.index\<close> code units of the
  text; every entry of such a finding differs from the entry of a successful test, has its
  offset within the text, and has the line computed from its own offset.
\<close>

theorem scanPrompt_line_numbers:
  assumes "fst (scanPrompt text catalog) = Inr fs" and "f \<in> set fs"
  shows "\<exists>rule \<in> set catalog.
           f = findingOf rule (matches f)
           \<and> ((matches f = [structuralAnalysis]
                \<and> (case patterns rule of None \<Rightarrow> True
                    | Some ps \<Rightarrow> list_all (\<lambda>p. matchAll text (p\<lparr>lastIndex := 0\<rparr>) = []) ps))
               \<or> (\<exists>ps. patterns rule = Some ps
                    \<and> matches f \<noteq> []
                    \<and> matches f
                        = concat (map (\<lambda>p. map (\<lambda>m. \<lparr>match = take 80 (fst m), index = snd m,
                                                         line = 1 + count_list (take (snd m) text) 10\<rparr>)
                                                  (matchAll text (p\<lparr>lastIndex := 0\<rparr>))) ps)
                    \<and> (\<forall>d \<in> set (matches f).
                          d \<noteq> structuralAnalysis \<and> index d \<le> length text
                          \<and> line d = 1 + count_list (take (index d) text) 10
                          \<and> (\<exists>p m. p \<in> set ps \<and> m \<in> set (matchAll text (p\<lparr>lastIndex := 0\<rparr>))
                                 \<and> match d = take 80 (fst m) \<and> index d = snd m))))"
proof -
  from assms obtain rule where rule: "rule \<in> set catalog"
      and f: "f \<in> set (pushed (ruleOutcome rule text))"
    by (auto simp: scanPrompt_Inr_iff)
  from pushed_ruleOutcome [OF f] have ff: "f = findingOf rule (matches f)" by simp
  from pushed_ruleOutcome [OF f]
  consider (pattern) "matches f = ruleDetails rule text" "ruleDetails rule text \<noteq> []"
    | (predicate) "matches f = [structuralAnalysis]" "ruleDetails rule text = []"
    by blast
  then show ?thesis
  proof cases
    case predicate
    from predicate(2) have "case patterns rule of None \<Rightarrow> True
        | Some ps \<Rightarrow> list_all (\<lambda>p. matchAll text (p\<lparr>lastIndex := 0\<rparr>) = []) ps"
      by (simp add: ruleDetails_empty_iff)
    with predicate(1) ff rule show ?thesis by blast
  next
    case pattern
    from pattern(2) obtain ps where ps: "patterns rule = Some ps"
      by (cases "patterns rule") (simp_all add: ruleDetails_def)
    have eq: "matches f
        = concat (map (\<lambda>p. map (\<lambda>m. \<lparr>match = take 80 (fst m), index = snd m,
                                         line = 1 + count_list (take (snd m) text) 10\<rparr>)
                                  (matchAll text (p\<lparr>lastIndex := 0\<rparr>))) ps)"
      using pattern(1) ruleDetails_Some [OF ps, of "text"] by simp
    have ne: "matches f \<noteq> []" using pattern by simp
    have each: "\<forall>d \<in> set (matches f).
        d \<noteq> structuralAnalysis \<and> index d \<le> length text
        \<and> line d = 1 + count_list (take (index d) text) 10
        \<and> (\<exists>p m. p \<in> set ps \<and> m \<in> set (matchAll text (p\<lparr>lastIndex := 0\<rparr>))
               \<and> match d = take 80 (fst m) \<and> index d = snd m)"
      using ruleDetails_entry [OF ps] pattern(1) by simp
    from ps ne eq each have
      "\<exists>ps. patterns rule = Some ps
          \<and> matches f \<noteq> []
          \<and> matches f
              = concat (map (\<lambda>p. map (\<lambda>m. \<lparr>match = take 80 (fst m), index = snd m,
                                               line = 1 + count_list (take (snd m) text) 10\<rparr>)
                                        (matchAll text (p\<lparr>lastIndex := 0\<rparr>))) ps)
          \<and> (\<forall>d \<in> set (matches f).
                d \<noteq> structuralAnalysis \<and> index d \<le> length text
                \<and> line d = 1 + count_list (take (index d) text) 10
                \<and> (\<exists>p m. p \<in> set ps \<and> m \<in> set (matchAll text (p\<lparr>lastIndex := 0\<rparr>))
                       \<and> match d = take 80 (fst m) \<and> index d = snd m))"
      by blast
    with ff rule show ?thesis by blast
  qed
qed

lemma outcomes_newline_pwd:
  "map (\<lambda>r. ruleOutcome r (10 # js ''pwd=x'')) (rules :: unit rule list) =
    [Inr None,
     Inr (Some (findingOf (rule_SDE_002 :: unit rule)
                  [\<lparr>match = js ''pwd=x'', index = 1, line = 2\<rparr>])),
     Inr None, Inr None, Inr None,
     Inr (Some (findingOf (rule_INJ_001 :: unit rule) [structuralAnalysis])),
     Inr None, Inr None, Inr None, Inr None, Inr None, Inr None, Inr None, Inr None, Inr None]"
  by (simp add: rules_def notation_defs matcher_eval catalog_defs outcome_defs findingOf_def)

theorem scanPrompt_line_numbers_witness:
  "fst (scanPrompt (10 # js ''pwd=x'') (rules :: unit rule list))
     = Inr [findingOf (rule_SDE_002 :: unit rule) [\<lparr>match = js ''pwd=x'', index = 1, line = 2\<rparr>],
            findingOf (rule_INJ_001 :: unit rule) [structuralAnalysis]]
   \<and> findingOf (rule_SDE_002 :: unit rule) [\<lparr>match = js ''pwd=x'', index = 1, line = 2\<rparr>]
       \<in> set [findingOf (rule_SDE_002 :: unit rule) [\<lparr>match = js ''pwd=x'', index = 1, line = 2\<rparr>],
               findingOf (rule_INJ_001 :: unit rule) [structuralAnalysis]]
   \<and> matches (findingOf (rule_SDE_002 :: unit rule) [\<lparr>match = js ''pwd=x'', index = 1, line = 2\<rparr>])
       = [\<lparr>match = js ''pwd=x'', index = 1, line = 2\<rparr>]
   \<and> \<lparr>match = js ''pwd=x'', index = 1, line = 2\<rparr> \<noteq> structuralAnalysis
   \<and> index \<lparr>match = js ''pwd=x'', index = 1, line = 2\<rparr> \<le> length (10 # js ''pwd=x'')
   \<and> line \<lparr>match = js ''pwd=x'', index = 1, line = 2\<rparr>
       = 1 + count_list (take (index \<lparr>match = js ''pwd=x'', index = 1, line = 2\<rparr>)
                              (10 # js ''pwd=x'')) 10
   \<and> 1 + count_list (take 1 (10 # js ''pwd=x'')) 10 = (2 :: nat)"
proof -
  let ?t = "10 # js ''pwd=x''"
  let ?d = "\<lparr>match = js ''pwd=x'', index = 1, line = 2\<rparr>"
  let ?f = "findingOf (rule_SDE_002 :: unit rule) [?d]"
  let ?fs = "[?f, findingOf (rule_INJ_001 :: unit rule) [structuralAnalysis]]"
  have h1: "fst (scanPrompt ?t (rules :: unit rule list)) = Inr ?fs"
    by (simp add: scanPrompt_fst outcomes_newline_pwd)
  have h2: "?f \<in> set ?fs" by simp
  have m: "matches ?f = [?d]" by (simp add: findingOf_def)
  have ns: "[?d] \<noteq> [structuralAnalysis]" by (simp add: structuralAnalysis_def)
  from scanPrompt_line_numbers [OF h1 h2] obtain rule :: "unit rule" where
    "(matches ?f = [structuralAnalysis]
       \<and> (case patterns rule of None \<Rightarrow> True
           | Some ps \<Rightarrow> list_all (\<lambda>p. matchAll ?t (p\<lparr>lastIndex := 0\<rparr>) = []) ps))
     \<or> (\<exists>ps. patterns rule = Some ps
           \<and> matches ?f \<noteq> []
           \<and> matches ?f
               = concat (map (\<lambda>p. map (\<lambda>m. \<lparr>match = take 80 (fst m), index = snd m,
                                                line = 1 + count_list (take (snd m) ?t) 10\<rparr>)
                                         (matchAll ?t (p\<lparr>lastIndex := 0\<rparr>))) ps)
           \<and> (\<forall>d \<in> set (matches ?f).
                 d \<noteq> structuralAnalysis \<and> index d \<le> length ?t
                 \<and> line d = 1 + count_list (take (index d) ?t) 10
                 \<and> (\<exists>p m. p \<in> set ps \<and> m \<in> set (matchAll ?t (p\<lparr>lastIndex := 0\<rparr>))
                        \<and> match d = take 80 (fst m) \<and> index d = snd m)))"
    by blast
  with m ns have "\<forall>d \<in> set [?d].
      d \<noteq> structuralAnalysis \<and> index d \<le> length ?t
      \<and> line d = 1 + count_list (take (index d) ?t) 10"
    by auto
  then have d: "?d \<noteq> structuralAnalysis \<and> index ?d \<le> length ?t
      \<and> line ?d = 1 + count_list (take (index ?d) ?t) 10"
    by simp
  have c: "1 + count_list (take 1 ?t) 10 = (2 :: nat)" by simp
  from h1 h2 m d c show ?thesis by blast
qed

subsection \<open>Precedence of the patterns over the test\<close>

lemma ruleDetails_test_update [simp]:
  "ruleDetails (rule\<lparr>test := t'\<rparr>) text = ruleDetails rule text"
  by (simp add: ruleDetails_def)

lemma findingOf_test_update [simp]: "findingOf (rule\<lparr>test := t'\<rparr>) ds = findingOf rule ds"
  by (simp add: findingOf_def)

lemma ruleOutcome_pattern_match:
  "ruleDetails rule text \<noteq> [] \<Longrightarrow>
   ruleOutcome rule text = Inr (Some (findingOf rule (ruleDetails rule text)))"
  by (simp add: ruleOutcome_def)

lemma ruleOutcome_predicate:
  "ruleDetails rule text = [] \<Longrightarrow> test rule = Some t \<Longrightarrow>
   ruleOutcome rule text
     = (case t text of Inl e \<Rightarrow> Inl e
        | Inr b \<Rightarrow> Inr (if b then Some (findingOf rule [structuralAnalysis]) else None))"
  by (simp add: ruleOutcome_def)

text \<open>
  Claim C3.  For a rule that has a test: when its patterns produce a match, the loop body
  pushes the finding with the pattern matches whatever the test is, so replacing the test by
  any other function (one that throws included) leaves the result of the scan unchanged;
  when its patterns are absent, empty or without a match, the outcome is decided by the
  test, and a test that returns true yields the rule's finding with the single entry
  \<open>{ match: "(structural analysis)", index: 0, line: 0 }\<close>.
\<close>

theorem test_only_without_pattern_match:
  assumes "test rule = Some t"
  shows "fst (scanRule rule text)
           = (if ruleDetails rule text \<noteq> [] then Inr (Some (findingOf rule (ruleDetails rule text)))
              else (case t text of Inl e \<Rightarrow> Inl e
                    | Inr b \<Rightarrow> Inr (if b then Some (findingOf rule [structuralAnalysis]) else None)))
     \<and> (ruleDetails rule text \<noteq> [] \<longrightarrow>
          (\<forall>t'. fst (scanPrompt text (pre @ rule\<lparr>test := Some t'\<rparr> # post))
                  = fst (scanPrompt text (pre @ rule # post)))
          \<and> (\<forall>fs. fst (scanPrompt text (pre @ rule # post)) = Inr fs
                 \<longrightarrow> findingOf rule (ruleDetails rule text) \<in> set fs))
     \<and> (ruleDetails rule text = [] \<longrightarrow> t text = Inr True \<longrightarrow>
          (\<forall>fs. fst (scanPrompt text (pre @ rule # post)) = Inr fs
                 \<longrightarrow> findingOf rule [structuralAnalysis] \<in> set fs))
     \<and> matches (findingOf rule [structuralAnalysis])
          = [\<lparr>match = js ''(structural analysis)'', index = 0, line = 0\<rparr>]"
proof -
  have body: "fst (scanRule rule text)
           = (if ruleDetails rule text \<noteq> [] then Inr (Some (findingOf rule (ruleDetails rule text)))
              else (case t text of Inl e \<Rightarrow> Inl e
                    | Inr b \<Rightarrow> Inr (if b then Some (findingOf rule [structuralAnalysis]) else None)))"
    using assms by (simp add: scanRule_eq ruleOutcome_def)
  have same: "fst (scanPrompt text (pre @ rule\<lparr>test := Some t'\<rparr> # post))
                = fst (scanPrompt text (pre @ rule # post))"
    if "ruleDetails rule text \<noteq> []" for t'
  proof -
    have "ruleOutcome (rule\<lparr>test := Some t'\<rparr>) text = ruleOutcome rule text"
      using that by (simp add: ruleOutcome_pattern_match)
    then show ?thesis by (simp add: scanPrompt_fst)
  qed
  have pat: "findingOf rule (ruleDetails rule text) \<in> set fs"
    if "ruleDetails rule text \<noteq> []" "fst (scanPrompt text (pre @ rule # post)) = Inr fs" for fs
    using that by (simp add: scanPrompt_Inr_iff ruleOutcome_pattern_match)
  have pred: "findingOf rule [structuralAnalysis] \<in> set fs"
    if "ruleDetails rule text = []" "t text = Inr True"
       "fst (scanPrompt text (pre @ rule # post)) = Inr fs" for fs
    using that assms by (simp add: scanPrompt_Inr_iff ruleOutcome_predicate)
  have sentinel: "matches (findingOf rule [structuralAnalysis])
          = [\<lparr>match = js ''(structural analysis)'', index = 0, line = 0\<rparr>]"
    by (simp add: findingOf_def structuralAnalysis_def)
  from body same pat pred sentinel show ?thesis by blast
qed

lemma details_full_access:
  "ruleDetails (rule_AGN_001 :: unit rule) (js ''full access'')
     = [\<lparr>match = js ''full access'', index = 0, line = 1\<rparr>]"
  by (simp add: notation_defs matcher_eval rule_AGN_001_def ruleDetails_def patternDetails_def)

lemma details_you_can_api:
  "ruleDetails (rule_AGN_001 :: unit rule) (js ''you can api'') = []"
  by (simp add: notation_defs matcher_eval rule_AGN_001_def ruleDetails_def patternDetails_def)

lemma test_you_can_api: "test_AGN_001 (js ''you can api'') = (Inr True :: unit + bool)"
  by (simp add: notation_defs matcher_eval test_AGN_001_def)

lemma outcomes_you_can_api:
  "map (\<lambda>r. ruleOutcome r (js ''you can api'')) [rule_INJ_001, rule_AGN_001, rule_ATK_001 :: unit rule]
     = [Inr (Some (findingOf (rule_INJ_001 :: unit rule) [structuralAnalysis])),
        Inr (Some (findingOf (rule_AGN_001 :: unit rule) [structuralAnalysis])),
        Inr None]"
  by (simp add: notation_defs matcher_eval catalog_defs outcome_defs findingOf_def)

theorem test_only_without_pattern_match_witness:
  "test (rule_AGN_001 :: unit rule) = Some test_AGN_001
   \<and> ruleDetails (rule_AGN_001 :: unit rule) (js ''full access'') \<noteq> []
   \<and> fst (scanPrompt (js ''full access'')
             ([rule_INJ_001] @ (rule_AGN_001 :: unit rule)\<lparr>test := Some (alwaysThrows ())\<rparr>
                # [rule_ATK_001]))
       = fst (scanPrompt (js ''full access'') ([rule_INJ_001] @ rule_AGN_001 # [rule_ATK_001]))
   \<and> ruleDetails (rule_AGN_001 :: unit rule) (js ''you can api'') = []
   \<and> test_AGN_001 (js ''you can api'') = (Inr True :: unit + bool)
   \<and> fst (scanPrompt (js ''you can api'') ([rule_INJ_001] @ (rule_AGN_001 :: unit rule) # [rule_ATK_001]))
       = Inr [findingOf (rule_INJ_001 :: unit rule) [structuralAnalysis],
              findingOf (rule_AGN_001 :: unit rule) [structuralAnalysis]]
   \<and> findingOf (rule_AGN_001 :: unit rule) [structuralAnalysis]
       \<in> set [findingOf (rule_INJ_001 :: unit rule) [structuralAnalysis],
               findingOf (rule_AGN_001 :: unit rule) [structuralAnalysis]]"
proof -
  have t: "test (rule_AGN_001 :: unit rule) = Some test_AGN_001"
    by (simp add: rule_AGN_001_def)
  have d1: "ruleDetails (rule_AGN_001 :: unit rule) (js ''full access'') \<noteq> []"
    by (simp add: details_full_access)
  have d2: "ruleDetails (rule_AGN_001 :: unit rule) (js ''you can api'') = []"
    by (rule details_you_can_api)
  have p2: "test_AGN_001 (js ''you can api'') = (Inr True :: unit + bool)"
    by (rule test_you_can_api)
  have s2: "fst (scanPrompt (js ''you can api'')
                  ([rule_INJ_001] @ (rule_AGN_001 :: unit rule) # [rule_ATK_001]))
       = Inr [findingOf (rule_INJ_001 :: unit rule) [structuralAnalysis],
              findingOf (rule_AGN_001 :: unit rule) [structuralAnalysis]]"
    using outcomes_you_can_api by (simp add: scanPrompt_fst)
  from test_only_without_pattern_match [OF t, of "js ''full access''" "[rule_INJ_001]" "[rule_ATK_001]"] d1
  have a: "fst (scanPrompt (js ''full access'')
             ([rule_INJ_001] @ (rule_AGN_001 :: unit rule)\<lparr>test := Some (alwaysThrows ())\<rparr>
                # [rule_ATK_001]))
       = fst (scanPrompt (js ''full access'') ([rule_INJ_001] @ rule_AGN_001 # [rule_ATK_001]))"
    by blast
  from test_only_without_pattern_match [OF t, of "js ''you can api''" "[rule_INJ_001]" "[rule_ATK_001]"]
    d2 p2 s2
  have b: "findingOf (rule_AGN_001 :: unit rule) [structuralAnalysis]
       \<in> set [findingOf (rule_INJ_001 :: unit rule) [structuralAnalysis],
               findingOf (rule_AGN_001 :: unit rule) [structuralAnalysis]]"
    by blast
  from t d1 a d2 p2 s2 b show ?thesis by blast
qed

subsection \<open>Order of the findings\<close>

lemma pushed_id': "f \<in> set (pushed (ruleOutcome rule text)) \<Longrightarrow> id' f = id' rule"
proof -
  assume "f \<in> set (pushed (ruleOutcome rule text))"
  from pushed_ruleOutcome [OF this] have "f = findingOf rule (matches f)" by simp
  then have "id' f = id' (findingOf rule (matches f))" by simp
  then show ?thesis by (simp add: findingOf_def)
qed

lemma pushed_cases:
  "pushed o1 = [] \<or> (\<exists>f. pushed o1 = [f])"
  by (cases o1 rule: pushed.cases) simp_all

lemma ids_of_findings:
  "map id' (concat (map (\<lambda>r. pushed (ruleOutcome r text)) catalog))
     = map id' (filter (\<lambda>r. pushed (ruleOutcome r text) \<noteq> []) catalog)"
proof (induction catalog)
  case Nil
  show ?case by simp
next
  case (Cons r rs)
  from pushed_cases [of "ruleOutcome r text"] show ?case
  proof
    assume "pushed (ruleOutcome r text) = []"
    with Cons.IH show ?thesis by simp
  next
    assume "\<exists>f. pushed (ruleOutcome r text) = [f]"
    then obtain f where f: "pushed (ruleOutcome r text) = [f]" ..
    then have "id' f = id' r" using pushed_id' [of f r "text"] by simp
    with f Cons.IH show ?thesis by simp
  qed
qed

text \<open>
  Claim C4.  The ids of the findings of a scan form a subsequence of the ids of the catalog:
  each rule contributes at most one finding, and the findings stand in the order of the
  catalog, whatever their severities.  The ids of the catalog are pairwise distinct, hence
  so are the ids of the findings.
\<close>

theorem findings_in_catalog_order:
  assumes "fst (scanPrompt text catalog) = Inr fs"
  shows "subseq (map id' fs) (map id' catalog)
     \<and> length fs \<le> length catalog
     \<and> (distinct (map id' catalog) \<longrightarrow> distinct (map id' fs))
     \<and> distinct (map id' (rules :: 'e rule list))"
proof -
  from assms have fs: "fs = concat (map (\<lambda>r. pushed (ruleOutcome r text)) catalog)"
    by (simp add: scanPrompt_Inr_iff)
  have ids: "map id' fs = map id' (filter (\<lambda>r. pushed (ruleOutcome r text) \<noteq> []) catalog)"
    unfolding fs by (rule ids_of_findings)
  have sub: "subseq (map id' fs) (map id' catalog)"
    unfolding ids by (intro subseq_map subseq_filter_left)
  have len: "length fs \<le> length catalog"
  proof -
    have "length (map id' fs) \<le> length catalog"
      unfolding ids by simp
    then show ?thesis by simp
  qed
  have dist: "distinct (map id' fs)" if "distinct (map id' catalog)"
    unfolding ids using that by (rule distinct_map_filter)
  have cat: "distinct (map id' (rules :: 'e rule list))"
    by (simp add: rules_def catalog_defs)
  from sub len dist cat show ?thesis by blast
qed

lemma outcomes_run_code:
  "map (\<lambda>r. ruleOutcome r (js ''run code'')) (rules :: unit rule list) =
    [Inr None, Inr None, Inr None, Inr None, Inr None,
     Inr (Some (findingOf (rule_INJ_001 :: unit rule) [structuralAnalysis])),
     Inr None, Inr None, Inr None, Inr None, Inr None,
     Inr (Some (findingOf (rule_OUT_002 :: unit rule)
                  [\<lparr>match = js ''run code'', index = 0, line = 1\<rparr>])),
     Inr None, Inr None, Inr None]"
  by (simp add: rules_def notation_defs matcher_eval catalog_defs outcome_defs findingOf_def)

theorem findings_in_catalog_order_witness:
  "fst (scanPrompt (js ''run code'') (rules :: unit rule list))
     = Inr [findingOf (rule_INJ_001 :: unit rule) [structuralAnalysis],
            findingOf (rule_OUT_002 :: unit rule) [\<lparr>match = js ''run code'', index = 0, line = 1\<rparr>]]
   \<and> map severity [findingOf (rule_INJ_001 :: unit rule) [structuralAnalysis],
            findingOf (rule_OUT_002 :: unit rule) [\<lparr>match = js ''run code'', index = 0, line = 1\<rparr>]]
       = [''high'', ''critical'']
   \<and> subseq (map id' [findingOf (rule_INJ_001 :: unit rule) [structuralAnalysis],
            findingOf (rule_OUT_002 :: unit rule) [\<lparr>match = js ''run code'', index = 0, line = 1\<rparr>]])
         (map id' (rules :: unit rule list))
   \<and> distinct (map id' (rules :: unit rule list))
   \<and> distinct (map id' [findingOf (rule_INJ_001 :: unit rule) [structuralAnalysis],
            findingOf (rule_OUT_002 :: unit rule) [\<lparr>match = js ''run code'', index = 0, line = 1\<rparr>]])"
proof -
  let ?fs = "[findingOf (rule_INJ_001 :: unit rule) [structuralAnalysis],
            findingOf (rule_OUT_002 :: unit rule) [\<lparr>match = js ''run code'', index = 0, line = 1\<rparr>]]"
  have h: "fst (scanPrompt (js ''run code'') (rules :: unit rule list)) = Inr ?fs"
    by (simp add: scanPrompt_fst outcomes_run_code)
  have sev: "map severity ?fs = [''high'', ''critical'']"
    by (simp add: findingOf_def rule_INJ_001_def rule_OUT_002_def)
  from findings_in_catalog_order [OF h, where ?'e = unit] h sev show ?thesis by blast
qed

subsection \<open>The catalog after a scan\<close>

lemma ruleOutcome_total:
  "(\<And>t. test rule = Some t \<Longrightarrow> \<not> isl (t text)) \<Longrightarrow> \<not> isl (ruleOutcome rule text)"
  by (auto simp: ruleOutcome_def split: option.splits sum.splits)

lemma tests_total:
  "\<not> isl (test_SDE_003 text)" "\<not> isl (test_INJ_001 text)" "\<not> isl (test_INJ_002 text)"
  "\<not> isl (test_INJ_003 text)" "\<not> isl (test_AGN_001 text)" "\<not> isl (test_AGN_002 text)"
  "\<not> isl (test_OUT_001 text)" "\<not> isl (test_ATK_001 text)"
  by (simp_all add: test_SDE_003_def test_INJ_001_def test_INJ_002_def test_INJ_003_def
      test_AGN_001_def test_AGN_002_def test_OUT_001_def test_ATK_001_def Let_def)

lemma rule_outcomes_total:
  "\<not> isl (ruleOutcome (rule_SDE_001 :: 'e rule) text)"
  "\<not> isl (ruleOutcome (rule_SDE_002 :: 'e rule) text)"
  "\<not> isl (ruleOutcome (rule_SDE_003 :: 'e rule) text)"
  "\<not> isl (ruleOutcome (rule_SDE_004 :: 'e rule) text)"
  "\<not> isl (ruleOutcome (rule_SDE_005 :: 'e rule) text)"
  "\<not> isl (ruleOutcome (rule_INJ_001 :: 'e rule) text)"
  "\<not> isl (ruleOutcome (rule_INJ_002 :: 'e rule) text)"
  "\<not> isl (ruleOutcome (rule_INJ_003 :: 'e rule) text)"
  "\<not> isl (ruleOutcome (rule_AGN_001 :: 'e rule) text)"
  "\<not> isl (ruleOutcome (rule_AGN_002 :: 'e rule) text)"
  "\<not> isl (ruleOutcome (rule_OUT_001 :: 'e rule) text)"
  "\<not> isl (ruleOutcome (rule_OUT_002 :: 'e rule) text)"
  "\<not> isl (ruleOutcome (rule_ATK_001 :: 'e rule) text)"
  "\<not> isl (ruleOutcome (rule_ATK_002 :: 'e rule) text)"
  "\<not> isl (ruleOutcome (rule_ATK_003 :: 'e rule) text)"
  by (rule ruleOutcome_total,
      simp add: rule_SDE_001_def rule_SDE_002_def rule_SDE_003_def rule_SDE_004_def
        rule_SDE_005_def rule_INJ_001_def rule_INJ_002_def rule_INJ_003_def rule_AGN_001_def
        rule_AGN_002_def rule_OUT_001_def rule_OUT_002_def rule_ATK_001_def rule_ATK_002_def
        rule_ATK_003_def tests_total)+

lemma rules_never_throw: "list_all (\<lambda>r. \<not> isl (ruleOutcome r text)) (rules :: 'e rule list)"
  by (simp add: rules_def rule_outcomes_total)

lemma scanPrompt_rules:
  "fst (scanPrompt text (rules :: 'e rule list))
     = Inr (concat (map (\<lambda>r. pushed (ruleOutcome r text)) (rules :: 'e rule list)))"
  by (simp add: scanPrompt_Inr_iff rules_never_throw)

lemma resetRule_rules: "map resetRule (rules :: 'e rule list) = rules"
  by (simp add: rules_def resetRule_def resetPattern_def catalog_defs flagsG_def flagsGI_def)

lemma scanPrompt_snd:
  "fst (scanPrompt text catalog) = Inr fs \<Longrightarrow> snd (scanPrompt text catalog) = map resetRule catalog"
  unfolding scanPrompt_def by (rule snd_scanLoop_ok)

text \<open>
  Claim C5.  A scan leaves the catalog as it was constructed.  The text is a string value
  and cannot be written to; the engine has no other state.  The one write of the engine,
  \<open>pattern.lastIndex = 0\<close>, stores the value that every pattern of the catalog holds from
  its construction on, and \<open>matchAll\<close> works on a clone; so the catalog after a scan, and
  after any sequence of scans, is the catalog before.
\<close>

theorem scanPrompt_catalog_unchanged:
  "snd (scanPrompt text (rules :: 'e rule list)) = rules
   \<and> fold (\<lambda>t catalog. snd (scanPrompt t catalog)) texts (rules :: 'e rule list) = rules"
proof -
  have one: "snd (scanPrompt t (rules :: 'e rule list)) = rules" for t
    using scanPrompt_snd [OF scanPrompt_rules] by (simp add: resetRule_rules)
  have "fold (\<lambda>t catalog. snd (scanPrompt t catalog)) texts (rules :: 'e rule list) = rules"
    by (induction texts) (simp_all add: one)
  with one show ?thesis by simp
qed

subsection \<open>Determinism\<close>

lemma patternDetails_reset:
  "patternDetails (map resetPattern ps) text = patternDetails ps text"
  by (simp add: patternDetails_def resetPattern_def comp_def)

lemma ruleOutcome_resetRule: "ruleOutcome (resetRule rule) text = ruleOutcome rule text"
proof -
  have d: "ruleDetails (resetRule rule) text = ruleDetails rule text"
    by (cases "patterns rule") (simp_all add: ruleDetails_def resetRule_def patternDetails_reset)
  have f: "findingOf (resetRule rule) ds = findingOf rule ds" for ds
    by (simp add: findingOf_def resetRule_def)
  have t: "test (resetRule rule) = test rule"
    by (simp add: resetRule_def)
  show ?thesis by (simp add: ruleOutcome_def d f t split: option.splits sum.splits)
qed

lemma resetRule_withLastIndex: "resetRule (withLastIndex n rule) = resetRule rule"
  by (cases "patterns rule") (simp_all add: resetRule_def withLastIndex_def resetPattern_def)

text \<open>
  Claim C7.  The result of a scan is a function of the text alone.  Two catalogs that
  differ at most in the \<open>lastIndex\<close> values of their patterns (the only mutable state there
  is) give the same result for the same text, and a second scan of a text, run on the
  catalog as the first scan left it, returns what the first returned.
\<close>

theorem scanPrompt_deterministic:
  "(map resetRule catalog1 = map resetRule catalog2 \<longrightarrow>
      fst (scanPrompt text catalog1) = fst (scanPrompt text catalog2))
   \<and> fst (scanPrompt text (snd (scanPrompt text (rules :: 'e rule list))))
       = fst (scanPrompt text (rules :: 'e rule list))"
proof -
  have out: "map (\<lambda>r. ruleOutcome r text) catalog
              = map (\<lambda>r. ruleOutcome r text) (map resetRule catalog)" for catalog :: "'a rule list"
    by (simp add: ruleOutcome_resetRule comp_def)
  have a: "fst (scanPrompt text catalog1) = fst (scanPrompt text catalog2)"
    if "map resetRule catalog1 = map resetRule catalog2"
    unfolding scanPrompt_fst out [of catalog1] out [of catalog2] that ..
  have "snd (scanPrompt text (rules :: 'e rule list)) = rules"
    using scanPrompt_snd [OF scanPrompt_rules] by (simp add: resetRule_rules)
  then have b: "fst (scanPrompt text (snd (scanPrompt text (rules :: 'e rule list))))
       = fst (scanPrompt text (rules :: 'e rule list))"
    by simp
  from a b show ?thesis by blast
qed

theorem scanPrompt_deterministic_witness:
  "map resetRule (map (withLastIndex 7) (rules :: unit rule list)) = map resetRule rules
   \<and> map (withLastIndex 7) (rules :: unit rule list) \<noteq> rules
   \<and> fst (scanPrompt (js ''run code'') (map (withLastIndex 7) (rules :: unit rule list)))
       = fst (scanPrompt (js ''run code'') rules)"
proof -
  have h: "map resetRule (map (withLastIndex 7) (rules :: unit rule list)) = map resetRule rules"
    by (simp add: resetRule_withLastIndex comp_def)
  have ne: "map (withLastIndex 7) (rules :: unit rule list) \<noteq> rules"
    by (simp add: rules_def withLastIndex_def rule_SDE_001_def flagsG_def flagsGI_def)
  from scanPrompt_deterministic [of "map (withLastIndex 7) (rules :: unit rule list)" rules "js ''run code''"]
    h ne show ?thesis by blast
qed

subsection \<open>A test that throws\<close>

text \<open>
  Claim C8, as the code has it.  When the rules before a rule complete, the rule's patterns
  give no match and its test throws a value, the scan ends with exactly that value: no
  finding list is returned, the rule is not skipped.  The engine adds nothing to the thrown
  value; in particular the result is the same whatever the id of the rule is.
\<close>

theorem throwing_test_aborts_scan:
  assumes "fst (scanPrompt text pre) = Inr fs0"
    and "test rule = Some t" and "ruleDetails rule text = []" and "t text = Inl e"
  shows "fst (scanPrompt text (pre @ rule # post)) = Inl e
     \<and> (\<forall>i. fst (scanPrompt text (pre @ rule\<lparr>id' := i\<rparr> # post)) = Inl e)"
proof -
  from assms(1) have pre: "collect (map (\<lambda>r. ruleOutcome r text) pre) [] = Inr fs0"
    by (simp add: scanPrompt_fst)
  have out: "ruleOutcome (rule\<lparr>id' := i\<rparr>) text = Inl e" for i
    using assms(2-4) by (simp add: ruleOutcome_def ruleDetails_def)
  have "fst (scanPrompt text (pre @ rule\<lparr>id' := i\<rparr> # post)) = Inl e" for i
    using collect_Inl_append [OF pre] out [of i] by (simp add: scanPrompt_fst)
  moreover from this [of "id' rule"] have "fst (scanPrompt text (pre @ rule # post)) = Inl e"
    by simp
  ultimately show ?thesis by blast
qed

lemma outcome_INJ_001_hello:
  "ruleOutcome (rule_INJ_001 :: string rule) (js ''hello'')
     = Inr (Some (findingOf (rule_INJ_001 :: string rule) [structuralAnalysis]))"
  by (simp add: notation_defs matcher_eval catalog_defs outcome_defs findingOf_def)

theorem throwing_test_aborts_scan_witness:
  "fst (scanPrompt (js ''hello'') [rule_INJ_001 :: string rule])
     = Inr [findingOf (rule_INJ_001 :: string rule) [structuralAnalysis]]
   \<and> test (throwingRule ''BAD-001'' ''boom'') = Some (alwaysThrows ''boom'')
   \<and> ruleDetails (throwingRule ''BAD-001'' ''boom'') (js ''hello'') = []
   \<and> alwaysThrows ''boom'' (js ''hello'') = (Inl ''boom'' :: string + bool)
   \<and> fst (scanPrompt (js ''hello'')
            ([rule_INJ_001] @ throwingRule ''BAD-001'' ''boom'' # [rule_ATK_001]))
       = Inl ''boom''"
proof -
  have h1: "fst (scanPrompt (js ''hello'') [rule_INJ_001 :: string rule])
     = Inr [findingOf (rule_INJ_001 :: string rule) [structuralAnalysis]]"
    by (simp add: scanPrompt_fst outcome_INJ_001_hello)
  have h2: "test (throwingRule ''BAD-001'' ''boom'') = Some (alwaysThrows ''boom'')"
    by (simp add: throwingRule_def)
  have h3: "ruleDetails (throwingRule ''BAD-001'' ''boom'') (js ''hello'') = []"
    by (simp add: throwingRule_def ruleDetails_def)
  have h4: "alwaysThrows ''boom'' (js ''hello'') = (Inl ''boom'' :: string + bool)"
    by (simp add: alwaysThrows_def)
  from throwing_test_aborts_scan [OF h1 h2 h3 h4, of "[rule_ATK_001]"] h1 h2 h3 h4
  show ?thesis by blast
qed

text \<open>
  Claim C8, as it is stated, fails: the value that reaches the caller names no rule.  Two
  catalogs whose only rule throws the same value, under different ids, fail alike.
\<close>

theorem fault_names_no_rule:
  "fst (scanPrompt (js ''hello'') [throwingRule ''BAD-001'' ''boom'']) = Inl ''boom''
   \<and> fst (scanPrompt (js ''hello'') [throwingRule ''BAD-002'' ''boom'']) = Inl ''boom''
   \<and> id' (throwingRule ''BAD-001'' ''boom'') \<noteq> id' (throwingRule ''BAD-002'' ''boom'')"
  by (simp add: scanPrompt_fst ruleOutcome_def ruleDetails_def throwingRule_def alwaysThrows_def)

subsection \<open>Degenerate texts\<close>

text \<open>
  Claim C9.  A scan of the catalog returns a finding list for every text; no rule's test
  throws.  On a text of white space only (the empty text included) no pattern matches, and
  the findings are the one of INJ-001, followed by those of INJ-003, OUT-001 and ATK-001
  when the text is longer than 100, 200 and 2000 code units: at most four of the fifteen
  rules fire, and exactly one up to length 100.
\<close>

theorem scanPrompt_total_and_whitespace:
  "(\<exists>fs. fst (scanPrompt text (rules :: 'e rule list)) = Inr fs)
   \<and> (whitespaceOnly text \<longrightarrow>
        fst (scanPrompt text (rules :: 'e rule list))
          = Inr (findingOf (rule_INJ_001 :: 'e rule) [structuralAnalysis]
                 # (if 100 < length text
                    then [findingOf (rule_INJ_003 :: 'e rule) [structuralAnalysis]] else [])
                 @ (if 200 < length text
                    then [findingOf (rule_OUT_001 :: 'e rule) [structuralAnalysis]] else [])
                 @ (if 2000 < length text
                    then [findingOf (rule_ATK_001 :: 'e rule) [structuralAnalysis]] else [])))"
proof -
  have total: "\<exists>fs. fst (scanPrompt text (rules :: 'e rule list)) = Inr fs"
    by (simp add: scanPrompt_rules)
  have "fst (scanPrompt text (rules :: 'e rule list))
          = Inr (findingOf (rule_INJ_001 :: 'e rule) [structuralAnalysis]
                 # (if 100 < length text
                    then [findingOf (rule_INJ_003 :: 'e rule) [structuralAnalysis]] else [])
                 @ (if 200 < length text
                    then [findingOf (rule_OUT_001 :: 'e rule) [structuralAnalysis]] else [])
                 @ (if 2000 < length text
                    then [findingOf (rule_ATK_001 :: 'e rule) [structuralAnalysis]] else []))"
    if ws: "whitespaceOnly text"
  proof -
    have "concat (map (\<lambda>r. pushed (ruleOutcome r text)) (rules :: 'e rule list))
          = findingOf (rule_INJ_001 :: 'e rule) [structuralAnalysis]
            # (if 100 < length text
               then [findingOf (rule_INJ_003 :: 'e rule) [structuralAnalysis]] else [])
            @ (if 200 < length text
               then [findingOf (rule_OUT_001 :: 'e rule) [structuralAnalysis]] else [])
            @ (if 2000 < length text
               then [findingOf (rule_ATK_001 :: 'e rule) [structuralAnalysis]] else [])"
      by (simp add: rules_def ws ws_SDE_001 ws_SDE_002 ws_SDE_003 ws_SDE_004 ws_SDE_005
          ws_INJ_001 ws_INJ_002 ws_INJ_003 ws_AGN_001 ws_AGN_002 ws_OUT_001 ws_OUT_002
          ws_ATK_001 ws_ATK_002 ws_ATK_003)
    then show ?thesis by (simp only: scanPrompt_rules)
  qed
  with total show ?thesis by blast
qed

theorem scanPrompt_total_and_whitespace_witness:
  "whitespaceOnly [32, 9, 10]
   \<and> fst (scanPrompt [32, 9, 10] (rules :: unit rule list))
       = Inr [findingOf (rule_INJ_001 :: unit rule) [structuralAnalysis]]"
proof -
  have ws: "whitespaceOnly [32, 9, 10]"
    by (simp add: whitespaceOnly_def isWhiteSpace_def)
  from scanPrompt_total_and_whitespace [of "[32, 9, 10]", where ?'e = unit] ws
  show ?thesis by simp
qed

text \<open>
  Claim C10.  The scan of the empty string returns exactly one finding, that of INJ-001
  with severity high and the entry of a successful test: no pattern of any rule matches
  the empty text, the test of INJ-001 returns true, and every other test returns false.
\<close>

theorem scanPrompt_empty_text:
  "fst (scanPrompt (js '''') (rules :: 'e rule list))
     = Inr [\<lparr>id' = ''INJ-001'', name = ''No Injection Defense Instructions'',
             category = ''Injection Defense'', severity = ''high'', owasp = ''LLM01'',
             matches = [\<lparr>match = js ''(structural analysis)'', index = 0, line = 0\<rparr>]\<rparr>]
   \<and> list_all (\<lambda>r. ruleDetails r (js '''') = []) (rules :: 'e rule list)
   \<and> map (\<lambda>r. map_option (\<lambda>t. t (js '''')) (test r)) (rules :: 'e rule list)
       = [None, None, Some (Inr False), None, None, Some (Inr True), Some (Inr False),
          Some (Inr False), Some (Inr False), Some (Inr False), Some (Inr False), None,
          Some (Inr False), None, None]"
proof -
  have d: "list_all (\<lambda>r. ruleDetails r (js '''') = []) (rules :: 'e rule list)"
    by (simp add: rules_def notation_defs matcher_eval catalog_defs ruleDetails_def
        patternDetails_def)
  have t: "map (\<lambda>r. map_option (\<lambda>t. t (js '''')) (test r)) (rules :: 'e rule list)
       = [None, None, Some (Inr False), None, None, Some (Inr True), Some (Inr False),
          Some (Inr False), Some (Inr False), Some (Inr False), Some (Inr False), None,
          Some (Inr False), None, None]"
    by (simp add: rules_def notation_defs matcher_eval catalog_defs)
  have s: "fst (scanPrompt (js '''') (rules :: 'e rule list))
     = Inr [\<lparr>id' = ''INJ-001'', name = ''No Injection Defense Instructions'',
             category = ''Injection Defense'', severity = ''high'', owasp = ''LLM01'',
             matches = [\<lparr>match = js ''(structural analysis)'', index = 0, line = 0\<rparr>]\<rparr>]"
    unfolding scanPrompt_rules
    by (simp add: rules_def notation_defs matcher_eval catalog_defs outcome_defs findingOf_def
        structuralAnalysis_def)
  from s d t show ?thesis by blast
qed

end
